theory Spec2Isabelle
  imports Main
begin

section \<open>Static types (go/types)\<close>

text \<open>
  The analyzer reads the type checker's results through type switches on
  \<^verbatim>\<open>types.Type\<close>.  A named type is a pointer in Go, so it is a reference
  \<open>Named k\<close> into the table \<open>NamedTypes\<close> of the pass; this is what lets a
  schema refer to itself (a \<^verbatim>\<open>User\<close> with a field of type \<^verbatim>\<open>*User\<close>).
  A signature keeps the lengths of its parameter and result tuples, the only
  things the analyzer asks of it.
\<close>

datatype gtype =
    Basic string
  | Pointer gtype
  | Slice gtype
  | Array nat gtype
  | MapType gtype gtype
  | Interface
  | Signature nat nat
  | Named nat
  | Struct "var list"
and var = Var (var_Name: string) (var_Exported: bool) (var_Type: gtype)

record func =
  func_Name :: string
  func_Type :: gtype

record type_name =
  tn_Name :: string
  tn_Pkg :: "string option"

record named =
  named_Obj :: "type_name option"
  named_Methods :: "func list"
  named_Underlying :: gtype

record object =
  obj_id :: nat
  obj_Type :: gtype

record type_and_value =
  tv_Type :: gtype
  tv_Value :: "string option"

section \<open>Syntax trees (go/ast)\<close>

text \<open>
  Every node carries its identity (the pointer the maps of \<^verbatim>\<open>types.Info\<close> and
  the analyzer's visited set are keyed by) and the value of its \<^verbatim>\<open>Pos()\<close>.
  The node kinds the analyzer distinguishes have a constructor of their own;
  every other kind is an \<open>OtherNode\<close> with its children in traversal order.
\<close>

datatype token = AND | DEFINE | ASSIGN | OtherToken

datatype ident = Id (id_node: nat) (id_pos: nat) (id_Name: string)

datatype node =
    Ident ident
  | CallExpr nat nat node "node list"
  | UnaryExpr nat nat token node
  | SelectorExpr nat nat node ident
  | KeyValueExpr nat nat node node
  | CompositeLit nat nat "node option" "node list"
  | AssignStmt nat nat "node list" token "node list"
  | ReturnStmt nat nat "node list"
  | ValueSpec nat nat "ident list" "node option" "node list"
  | OtherNode nat nat "node list"

fun node_id :: "node \<Rightarrow> nat" where
  "node_id (Ident i) = id_node i"
| "node_id (CallExpr k _ _ _) = k"
| "node_id (UnaryExpr k _ _ _) = k"
| "node_id (SelectorExpr k _ _ _) = k"
| "node_id (KeyValueExpr k _ _ _) = k"
| "node_id (CompositeLit k _ _ _) = k"
| "node_id (AssignStmt k _ _ _ _) = k"
| "node_id (ReturnStmt k _ _) = k"
| "node_id (ValueSpec k _ _ _ _) = k"
| "node_id (OtherNode k _ _) = k"

fun node_Pos :: "node \<Rightarrow> nat" where
  "node_Pos (Ident i) = id_pos i"
| "node_Pos (CallExpr _ q _ _) = q"
| "node_Pos (UnaryExpr _ q _ _) = q"
| "node_Pos (SelectorExpr _ q _ _) = q"
| "node_Pos (KeyValueExpr _ q _ _) = q"
| "node_Pos (CompositeLit _ q _ _) = q"
| "node_Pos (AssignStmt _ q _ _ _) = q"
| "node_Pos (ReturnStmt _ q _) = q"
| "node_Pos (ValueSpec _ q _ _ _) = q"
| "node_Pos (OtherNode _ q _) = q"

fun option_list :: "'a option \<Rightarrow> 'a list" where
  "option_list None = []"
| "option_list (Some x) = [x]"

text \<open>The children of a node, in the order \<^verbatim>\<open>ast.Walk\<close> visits them.\<close>

fun children :: "node \<Rightarrow> node list" where
  "children (Ident i) = []"
| "children (CallExpr _ _ f args) = f # args"
| "children (UnaryExpr _ _ _ x) = [x]"
| "children (SelectorExpr _ _ x sel) = [x, Ident sel]"
| "children (KeyValueExpr _ _ k v) = [k, v]"
| "children (CompositeLit _ _ ty elts) = option_list ty @ elts"
| "children (AssignStmt _ _ lhs _ rhs) = lhs @ rhs"
| "children (ReturnStmt _ _ results) = results"
| "children (ValueSpec _ _ names ty vals) = map Ident names @ option_list ty @ vals"
| "children (OtherNode _ _ cs) = cs"

fun Elts :: "node \<Rightarrow> node list" where
  "Elts (CompositeLit _ _ _ elts) = elts"
| "Elts _ = []"

fun spec_Names :: "node \<Rightarrow> ident list" where
  "spec_Names (ValueSpec _ _ names _ _) = names"
| "spec_Names _ = []"

fun spec_Values :: "node \<Rightarrow> node list" where
  "spec_Values (ValueSpec _ _ _ _ vals) = vals"
| "spec_Values _ = []"

fun assign_Lhs :: "node \<Rightarrow> node list" where
  "assign_Lhs (AssignStmt _ _ lhs _ _) = lhs"
| "assign_Lhs _ = []"

fun assign_Rhs :: "node \<Rightarrow> node list" where
  "assign_Rhs (AssignStmt _ _ _ _ rhs) = rhs"
| "assign_Rhs _ = []"

lemma size_in_list: "c \<in> set cs \<Longrightarrow> size c \<le> size_list size cs"
  by (induction cs) auto

lemma size_in_option: "c \<in> set (option_list x) \<Longrightarrow> size c \<le> size_option size x"
  by (cases x) auto

lemma size_children: "c \<in> set (children n) \<Longrightarrow> size c < size n"
  by (cases n) (auto simp: less_Suc_eq_le dest: size_in_list size_in_option)

text \<open>
  \<^verbatim>\<open>ast.Inspect(node, f)\<close>: depth-first, \<open>f\<close> is called on a node before its
  children and decides whether they are visited.  The state \<open>'s\<close> stands for
  the variables the closure \<open>f\<close> captures and assigns.
\<close>

function Inspect :: "(node \<Rightarrow> 's \<Rightarrow> bool \<times> 's) \<Rightarrow> node \<Rightarrow> 's \<Rightarrow> 's" where
  "Inspect f n s =
     (if fst (f n s) then fold (Inspect f) (children n) (snd (f n s)) else snd (f n s))"
  by pat_completeness auto
termination
  by (relation "measure (\<lambda>(f, n, s). size n)") (auto simp: size_children)

declare Inspect.simps [simp del]

text \<open>\<^verbatim>\<open>inspector.Preorder\<close> visits every node of a file, parents first.\<close>

function preorder :: "node \<Rightarrow> node list" where
  "preorder n = n # concat (map preorder (children n))"
  by pat_completeness auto
termination
  by (relation "measure size") (auto simp: size_children)

declare preorder.simps [simp del]

section \<open>The analysis pass\<close>

record gofile =
  file_Name :: string
  file_Node :: node

text \<open>
  What \<^verbatim>\<open>analysis.Pass\<close> gives the analyzer: the files, the maps of
  \<^verbatim>\<open>types.Info\<close> (keyed by node identity), the named types the type checker
  built, and \<^verbatim>\<open>Type.String()\<close>, which the analyzer only copies into messages.
\<close>

record pass =
  Files :: "gofile list"
  TypeOf :: "nat \<Rightarrow> gtype option"
  ObjectOf :: "nat \<Rightarrow> object option"
  Types :: "nat \<Rightarrow> type_and_value option"
  NamedTypes :: "nat \<Rightarrow> named"
  TypeString :: "gtype \<Rightarrow> string"

subsection \<open>Diagnostics\<close>

text \<open>
  \<^verbatim>\<open>pass.Reportf(pos, format, args...)\<close> appends one diagnostic.  The format is
  one of the seven string literals of the analyzer; \<open>Message\<close> is the text
  \<^verbatim>\<open>fmt.Sprintf\<close> makes of it.
\<close>

datatype format =
    NilAssignment
  | NotInitialized
  | NilAssignmentNested
  | NotInitializedNested
  | VariableNil
  | UseNil
  | UseUninitialized

record diagnostic =
  d_Pos :: nat
  d_Format :: format
  d_Args :: "string list"

definition Reportf :: "nat \<Rightarrow> format \<Rightarrow> string list \<Rightarrow> diagnostic" where
  "Reportf pos fmt args = \<lparr>d_Pos = pos, d_Format = fmt, d_Args = args\<rparr>"

definition quoted :: "string \<Rightarrow> string" where
  "quoted s = CHR 0x27 # s @ [CHR 0x27]"

fun arg :: "string list \<Rightarrow> nat \<Rightarrow> string" where
  "arg [] k = ''%!s(MISSING)''"
| "arg (a # as) 0 = a"
| "arg (a # as) (Suc k) = arg as k"

fun Sprintf :: "format \<Rightarrow> string list \<Rightarrow> string" where
  "Sprintf NilAssignment as =
     ''nil assignment to non-optional message field '' @ quoted (arg as 0)
     @ '' in protobuf message '' @ quoted (arg as 1)"
| "Sprintf NotInitialized as =
     ''non-optional message field '' @ quoted (arg as 0)
     @ '' not initialized in protobuf message '' @ quoted (arg as 1)"
| "Sprintf NilAssignmentNested as =
     ''nil assignment to non-optional message field '' @ quoted (arg as 0 @ ''.'' @ arg as 1)
     @ '' in protobuf message '' @ quoted (arg as 2)"
| "Sprintf NotInitializedNested as =
     ''non-optional message field '' @ quoted (arg as 0 @ ''.'' @ arg as 1)
     @ '' not initialized in protobuf message '' @ quoted (arg as 2)"
| "Sprintf VariableNil as =
     ''variable '' @ quoted (arg as 0) @ '' used for field '' @ quoted (arg as 1)
     @ '' is nil (zero value)''"
| "Sprintf UseNil as =
     ''variable used in '' @ quoted (arg as 0) @ '' has nil in non-optional message field ''
     @ quoted (arg as 1) @ '' of type '' @ quoted (arg as 2)"
| "Sprintf UseUninitialized as =
     ''variable used in '' @ quoted (arg as 0)
     @ '' has uninitialized non-optional message field '' @ quoted (arg as 1)
     @ '' of type '' @ quoted (arg as 2)"

definition Message :: "diagnostic \<Rightarrow> string" where
  "Message d = Sprintf (d_Format d) (d_Args d)"

section \<open>The type classifier (messages.go)\<close>

definition HasPrefix :: "string \<Rightarrow> string \<Rightarrow> bool" where
  "HasPrefix s pre = (take (length pre) s = pre)"

definition HasSuffix :: "string \<Rightarrow> string \<Rightarrow> bool" where
  "HasSuffix s suf = (length suf \<le> length s \<and> drop (length s - length suf) s = suf)"

fun Contains :: "string \<Rightarrow> string \<Rightarrow> bool" where
  "Contains [] sub = (sub = [])"
| "Contains (c # cs) sub = (HasPrefix (c # cs) sub \<or> Contains cs sub)"

fun hasProtoMessageMethod :: "func list \<Rightarrow> bool" where
  "hasProtoMessageMethod [] = False"
| "hasProtoMessageMethod (method # ms) =
     (if func_Name method = ''ProtoMessage''
      then (case func_Type method of
              Signature params results \<Rightarrow>
                if params = 0 \<and> results = 0 then True else hasProtoMessageMethod ms
            | _ \<Rightarrow> hasProtoMessageMethod ms)
      else hasProtoMessageMethod ms)"

fun deref :: "gtype \<Rightarrow> gtype" where
  "deref (Pointer t) = t"
| "deref t = t"

definition isProtobufMessageType :: "pass \<Rightarrow> gtype \<Rightarrow> bool" where
  "isProtobufMessageType p t =
     (case deref t of
        Named k \<Rightarrow> hasProtoMessageMethod (named_Methods (NamedTypes p k))
      | _ \<Rightarrow> False)"

definition scalarWrappers :: "string \<Rightarrow> bool" where
  "scalarWrappers typeName =
     (typeName \<in> set [''StringValue'', ''Int32Value'', ''Int64Value'', ''UInt32Value'',
        ''UInt64Value'', ''FloatValue'', ''DoubleValue'', ''BoolValue'', ''BytesValue''])"

definition wellKnownPath :: "string \<Rightarrow> bool" where
  "wellKnownPath pkgPath =
     (Contains pkgPath ''google.golang.org/protobuf/types/known''
      \<or> Contains pkgPath ''google.golang.org/genproto/googleapis/type'')"

definition isMessageField :: "pass \<Rightarrow> var \<Rightarrow> bool" where
  "isMessageField p field =
     (case var_Type field of
        Slice _ \<Rightarrow> False
      | fieldType \<Rightarrow>
          (case deref fieldType of
             Named k \<Rightarrow>
               if \<not> hasProtoMessageMethod (named_Methods (NamedTypes p k)) then False
               else (case named_Obj (NamedTypes p k) of
                       None \<Rightarrow> False
                     | Some obj \<Rightarrow>
                         if (case tn_Pkg obj of None \<Rightarrow> False
                             | Some pkgPath \<Rightarrow> wellKnownPath pkgPath)
                         then True
                         else if scalarWrappers (tn_Name obj) then False
                         else True)
           | _ \<Rightarrow> False))"

definition isOptionalField :: "var \<Rightarrow> bool" where
  "isOptionalField field =
     (case var_Type field of
        Pointer (Pointer _) \<Rightarrow> True
      | _ \<Rightarrow> False)"

definition getMessageFields :: "pass \<Rightarrow> var list \<Rightarrow> var list" where
  "getMessageFields p structType =
     filter (\<lambda>field. var_Exported field \<and> isMessageField p field \<and> \<not> isOptionalField field)
       structType"

definition isResponseMessage :: "pass \<Rightarrow> gtype \<Rightarrow> bool" where
  "isResponseMessage p t =
     (case deref t of
        Named k \<Rightarrow>
          if \<not> hasProtoMessageMethod (named_Methods (NamedTypes p k)) then False
          else (case named_Obj (NamedTypes p k) of
                  None \<Rightarrow> False
                | Some obj \<Rightarrow>
                    HasSuffix (tn_Name obj) ''Response''
                    \<or> HasSuffix (tn_Name obj) ''Reply''
                    \<or> HasSuffix (tn_Name obj) ''Result'')
      | _ \<Rightarrow> False)"

definition getStructType :: "pass \<Rightarrow> gtype \<Rightarrow> var list option" where
  "getStructType p t =
     (case deref t of
        Named k \<Rightarrow>
          (case named_Underlying (NamedTypes p k) of
             Struct structType \<Rightarrow> Some structType
           | _ \<Rightarrow> None)
      | _ \<Rightarrow> None)"

fun findByName :: "var list \<Rightarrow> string \<Rightarrow> var option" where
  "findByName [] fieldName = None"
| "findByName (f # fs) fieldName =
     (if var_Name f = fieldName then Some f else findByName fs fieldName)"

definition getFieldFromType :: "pass \<Rightarrow> gtype \<Rightarrow> string \<Rightarrow> var option" where
  "getFieldFromType p t fieldName =
     (case getStructType p t of
        None \<Rightarrow> None
      | Some structType \<Rightarrow> findByName structType fieldName)"

section \<open>Nil detection and recursive validation (detector.go)\<close>

text \<open>
  The walk follows a variable to its declaration and goes on in the
  initializer found there, so its recursion is not structural in the syntax
  tree.  Every recursive function takes a fuel argument: \<open>None\<close> is the run
  that has not returned within the fuel, \<open>Some r\<close> the run that returned \<open>r\<close>.
  A validation function returns the diagnostics it reports, in order.
\<close>

subsection \<open>Looking up declarations\<close>

definition declaresObj :: "pass \<Rightarrow> object \<Rightarrow> ident list \<Rightarrow> bool" where
  "declaresObj p obj names = list_ex (\<lambda>name. ObjectOf p (id_node name) = Some obj) names"

text \<open>The closure passed to \<^verbatim>\<open>ast.Inspect\<close> by \<^verbatim>\<open>isNilVariable\<close> and
  \<^verbatim>\<open>validateVariableMessageAtPos\<close>; the state is the captured \<^verbatim>\<open>decl\<close>.\<close>

definition findValueSpec :: "pass \<Rightarrow> object \<Rightarrow> node \<Rightarrow> node option \<Rightarrow> bool \<times> node option" where
  "findValueSpec p obj n decl =
     (case n of
        ValueSpec _ _ names _ _ \<Rightarrow>
          if declaresObj p obj names then (False, Some n) else (True, decl)
      | _ \<Rightarrow> (True, decl))"

fun lookupValueSpec :: "pass \<Rightarrow> object \<Rightarrow> gofile list \<Rightarrow> node option" where
  "lookupValueSpec p obj [] = None"
| "lookupValueSpec p obj (file # files) =
     (case Inspect (findValueSpec p obj) (file_Node file) None of
        None \<Rightarrow> lookupValueSpec p obj files
      | Some decl \<Rightarrow> Some decl)"

definition isIdentOf :: "pass \<Rightarrow> object \<Rightarrow> node \<Rightarrow> bool" where
  "isIdentOf p obj lhs =
     (case lhs of Ident i \<Rightarrow> ObjectOf p (id_node i) = Some obj | _ \<Rightarrow> False)"

text \<open>The closure of \<^verbatim>\<open>validateVariableMessage\<close>; the state is the pair of the
  captured \<^verbatim>\<open>decl\<close> and \<^verbatim>\<open>declAssign\<close>.\<close>

definition findDeclaration ::
  "pass \<Rightarrow> object \<Rightarrow> node \<Rightarrow> node option \<times> node option \<Rightarrow> bool \<times> node option \<times> node option" where
  "findDeclaration p obj n st =
     (case n of
        AssignStmt _ _ lhs tok _ \<Rightarrow>
          if tok = DEFINE \<and> list_ex (isIdentOf p obj) lhs then (False, fst st, Some n)
          else (True, st)
      | ValueSpec _ _ names _ _ \<Rightarrow>
          if declaresObj p obj names then (False, Some n, snd st) else (True, st)
      | _ \<Rightarrow> (True, st))"

fun lookupDeclaration ::
  "pass \<Rightarrow> object \<Rightarrow> gofile list \<Rightarrow> node option \<times> node option \<Rightarrow> node option \<times> node option" where
  "lookupDeclaration p obj [] st = st"
| "lookupDeclaration p obj (file # files) st =
     (let st' = Inspect (findDeclaration p obj) (file_Node file) st
      in if fst st' \<noteq> None \<or> snd st' \<noteq> None then st'
         else lookupDeclaration p obj files st')"

text \<open>\<^verbatim>\<open>for i, lhs := range declAssign.Lhs\<close>: the first left-hand side that is the
  variable ends the loop; \<open>Some None\<close> when there is no right-hand side at its
  index, \<open>None\<close> when no left-hand side is the variable.\<close>

fun definedValue :: "pass \<Rightarrow> object \<Rightarrow> node list \<Rightarrow> node list \<Rightarrow> node option option" where
  "definedValue p obj [] rhs = None"
| "definedValue p obj (l # lhs) rhs =
     (if isIdentOf p obj l then Some (case rhs of [] \<Rightarrow> None | value # _ \<Rightarrow> Some value)
      else definedValue p obj lhs (tl rhs))"

text \<open>\<^verbatim>\<open>for i, name := range decl.Names\<close>: the values \<^verbatim>\<open>decl.Values[i]\<close> of the
  names that are the variable and have a value at their index.\<close>

fun declValues :: "pass \<Rightarrow> object \<Rightarrow> ident list \<Rightarrow> node list \<Rightarrow> node list" where
  "declValues p obj [] vals = []"
| "declValues p obj (name # names) vals =
     (if ObjectOf p (id_node name) = Some obj \<and> vals \<noteq> [] then [hd vals] else [])
     @ declValues p obj names (tl vals)"

subsection \<open>Iteration\<close>

text \<open>A loop whose body reports diagnostics; it does not go on once an
  iteration has not returned.\<close>

fun forEach :: "('a \<Rightarrow> diagnostic list option) \<Rightarrow> 'a list \<Rightarrow> diagnostic list option" where
  "forEach f [] = Some []"
| "forEach f (x # xs) =
     (case f x of
        None \<Rightarrow> None
      | Some ds \<Rightarrow> (case forEach f xs of None \<Rightarrow> None | Some ds' \<Rightarrow> Some (ds @ ds')))"

text \<open>\<^verbatim>\<open>for _, value := range decl.Values { if isNilValue(value, pass) { return true } }\<close>\<close>

fun anyNil :: "(node \<Rightarrow> bool option) \<Rightarrow> node list \<Rightarrow> bool option" where
  "anyNil f [] = Some False"
| "anyNil f (value # vals) =
     (case f value of
        None \<Rightarrow> None
      | Some True \<Rightarrow> Some True
      | Some False \<Rightarrow> anyNil f vals)"

text \<open>
  The loop over \<^verbatim>\<open>lit.Elts\<close>, which \<^verbatim>\<open>checkCompositeLiteral\<close>,
  \<^verbatim>\<open>validateCompositeLiteralMessage\<close> and \<^verbatim>\<open>validateCompositeLiteralMessageAtUse\<close>
  share word for word up to what they do with the value of a message field;
  that part is the argument \<open>check\<close>.  The state is the map \<^verbatim>\<open>initialized\<close>
  and the diagnostics reported so far.
\<close>

fun compositeElts ::
  "var list \<Rightarrow> (string \<Rightarrow> node \<Rightarrow> diagnostic list option) \<Rightarrow> node list
   \<Rightarrow> (string \<Rightarrow> bool) \<times> diagnostic list \<Rightarrow> ((string \<Rightarrow> bool) \<times> diagnostic list) option" where
  "compositeElts messageFields check [] st = Some st"
| "compositeElts messageFields check (elt # elts) st =
     (case elt of
        KeyValueExpr _ _ key val \<Rightarrow>
          (case key of
             Ident fieldIdent \<Rightarrow>
               (case findByName messageFields (id_Name fieldIdent) of
                  None \<Rightarrow>
                    compositeElts messageFields check elts
                      ((fst st)(id_Name fieldIdent := True), snd st)
                | Some field \<Rightarrow>
                    (case check (id_Name fieldIdent) val of
                       None \<Rightarrow> None
                     | Some ds \<Rightarrow>
                         compositeElts messageFields check elts
                           ((fst st)(id_Name fieldIdent := True), snd st @ ds)))
           | _ \<Rightarrow> compositeElts messageFields check elts st)
      | _ \<Rightarrow> compositeElts messageFields check elts st)"

text \<open>\<^verbatim>\<open>for _, field := range messageFields { if !initialized[field.Name()] { Reportf } }\<close>\<close>

definition uninitializedFields ::
  "var list \<Rightarrow> (string \<Rightarrow> bool) \<Rightarrow> (string \<Rightarrow> diagnostic) \<Rightarrow> diagnostic list" where
  "uninitializedFields messageFields initialized report =
     map (\<lambda>field. report (var_Name field))
       (filter (\<lambda>field. \<not> initialized (var_Name field)) messageFields)"

text \<open>
  The part of the three functions from \<^verbatim>\<open>initialized := make(map[string]bool)\<close>
  to their end: the loop over the elements, then the loop over the message
  fields that no element has named; \<open>report\<close> is the diagnostic of the second
  loop for a field name.
\<close>

definition validateFields ::
  "var list \<Rightarrow> (string \<Rightarrow> node \<Rightarrow> diagnostic list option) \<Rightarrow> node list \<Rightarrow> (string \<Rightarrow> diagnostic)
   \<Rightarrow> diagnostic list option" where
  "validateFields messageFields check elts report =
     (case compositeElts messageFields check elts (\<lambda>_. False, []) of
        None \<Rightarrow> None
      | Some st \<Rightarrow> Some (snd st @ uninitializedFields messageFields (fst st) report))"

text \<open>
  What the three functions and \<^verbatim>\<open>checkAssignment\<close> do with the value of a
  message field: \<^verbatim>\<open>if isNilValue(value, pass) { Reportf } else { valueType :=
  TypeOf(value); if valueType != nil && isProtobufMessageType(valueType) { validate } }\<close>.
  \<open>isNil\<close> is the result of \<^verbatim>\<open>isNilValue\<close>, \<open>d\<close> the diagnostic of the first
  branch, \<open>validate\<close> the recursive call of the second.
\<close>

definition checkValue ::
  "pass \<Rightarrow> bool option \<Rightarrow> diagnostic \<Rightarrow> node \<Rightarrow> (gtype \<Rightarrow> diagnostic list option)
   \<Rightarrow> diagnostic list option" where
  "checkValue p isNil d val validate =
     (case isNil of
        None \<Rightarrow> None
      | Some True \<Rightarrow> Some [d]
      | Some False \<Rightarrow>
          (case TypeOf p (node_id val) of
             None \<Rightarrow> Some []
           | Some valueType \<Rightarrow>
               if isProtobufMessageType p valueType then validate valueType else Some []))"

text \<open>
  \<^verbatim>\<open>if comp, ok := value.(*ast.CompositeLit); ok\<close> with the type given by the
  caller, and the \<^verbatim>\<open>&CompositeLit\<close> pattern of \<^verbatim>\<open>handleValidation\<close> and
  \<^verbatim>\<open>validateVariableMessageAtPos\<close>, which takes the type of the literal from
  \<^verbatim>\<open>TypeOf(comp)\<close> and does nothing when there is none.
\<close>

definition addressedComposite ::
  "pass \<Rightarrow> node \<Rightarrow> (node \<Rightarrow> gtype \<Rightarrow> diagnostic list option) \<Rightarrow> diagnostic list option" where
  "addressedComposite p val validate =
     (case val of
        UnaryExpr _ _ op x \<Rightarrow>
          if op = AND
          then (case x of
                  CompositeLit k _ _ _ \<Rightarrow>
                    (case TypeOf p k of
                       None \<Rightarrow> Some []
                     | Some compType \<Rightarrow> validate x compType)
                | _ \<Rightarrow> Some [])
          else Some []
      | _ \<Rightarrow> Some [])"

definition isCompositeLit :: "node \<Rightarrow> bool" where
  "isCompositeLit expr = (case expr of CompositeLit _ _ _ _ \<Rightarrow> True | _ \<Rightarrow> False)"

subsection \<open>isNilValue, isNilVariable\<close>

definition isNilIdent :: "node \<Rightarrow> bool" where
  "isNilIdent expr = (case expr of Ident i \<Rightarrow> id_Name i = ''nil'' | _ \<Rightarrow> False)"

definition isTypedNil :: "node \<Rightarrow> bool" where
  "isTypedNil expr =
     (case expr of
        CallExpr _ _ _ args \<Rightarrow> (case args of [a] \<Rightarrow> isNilIdent a | _ \<Rightarrow> False)
      | _ \<Rightarrow> False)"

definition zeroValueIsNil :: "gtype \<Rightarrow> bool" where
  "zeroValueIsNil objType =
     (case objType of Pointer _ \<Rightarrow> True | Interface \<Rightarrow> True | _ \<Rightarrow> False)"

definition hasConstantValue :: "pass \<Rightarrow> ident \<Rightarrow> bool" where
  "hasConstantValue p i =
     (case Types p (id_node i) of None \<Rightarrow> False | Some tv \<Rightarrow> tv_Value tv \<noteq> None)"

fun isNilValue :: "nat \<Rightarrow> pass \<Rightarrow> node \<Rightarrow> bool option"
and isNilVariable :: "nat \<Rightarrow> pass \<Rightarrow> ident \<Rightarrow> bool option" where
  "isNilValue 0 p expr = None"
| "isNilValue (Suc n) p expr =
     (if isNilIdent expr then Some True
      else if isTypedNil expr then Some True
      else (case (case expr of Ident i \<Rightarrow> isNilVariable n p i | _ \<Rightarrow> Some False) of
              None \<Rightarrow> None
            | Some True \<Rightarrow> Some True
            | Some False \<Rightarrow>
                (case expr of
                   UnaryExpr _ _ op x \<Rightarrow> if op = AND then isNilValue n p x else Some False
                 | _ \<Rightarrow> Some False)))"
| "isNilVariable 0 p i = None"
| "isNilVariable (Suc n) p i =
     (case ObjectOf p (id_node i) of
        None \<Rightarrow> Some False
      | Some obj \<Rightarrow>
          if hasConstantValue p i then Some False
          else (case lookupValueSpec p obj (Files p) of
                  None \<Rightarrow> Some False
                | Some decl \<Rightarrow>
                    if spec_Values decl = [] then Some (zeroValueIsNil (obj_Type obj))
                    else anyNil (\<lambda>value. isNilValue n p value) (spec_Values decl)))"

subsection \<open>Validation reporting at the use of a variable\<close>

fun validateCompositeLiteralMessageAtUse ::
  "nat \<Rightarrow> pass \<Rightarrow> node \<Rightarrow> gtype \<Rightarrow> string \<Rightarrow> nat \<Rightarrow> diagnostic list option"
and validateMessageValueAtPos ::
  "nat \<Rightarrow> pass \<Rightarrow> node \<Rightarrow> gtype \<Rightarrow> string \<Rightarrow> nat \<Rightarrow> diagnostic list option"
and validateVariableMessageAtPos ::
  "nat \<Rightarrow> pass \<Rightarrow> ident \<Rightarrow> gtype \<Rightarrow> string \<Rightarrow> nat \<Rightarrow> diagnostic list option" where
  "validateCompositeLiteralMessageAtUse 0 p lit litType fieldContext reportPos = None"
| "validateCompositeLiteralMessageAtUse (Suc n) p lit litType fieldContext reportPos =
     (case getStructType p litType of
        None \<Rightarrow> Some []
      | Some structType \<Rightarrow>
          if getMessageFields p structType = [] then Some []
          else
            validateFields (getMessageFields p structType)
              (\<lambda>fieldName val.
                 checkValue p (isNilValue n p val)
                   (Reportf reportPos UseNil [fieldContext, fieldName, TypeString p litType])
                   val
                   (\<lambda>valueType.
                      validateMessageValueAtPos n p val valueType
                        (fieldContext @ ''.'' @ fieldName) reportPos))
              (Elts lit)
              (\<lambda>name. Reportf reportPos UseUninitialized
                        [fieldContext, name, TypeString p litType]))"
| "validateMessageValueAtPos 0 p expr exprType fieldContext reportPos = None"
| "validateMessageValueAtPos (Suc n) p expr exprType fieldContext reportPos =
     (case expr of
        Ident e \<Rightarrow> validateVariableMessageAtPos n p e exprType fieldContext reportPos
      | CompositeLit _ _ _ _ \<Rightarrow>
          validateCompositeLiteralMessageAtUse n p expr exprType fieldContext reportPos
      | UnaryExpr _ _ op x \<Rightarrow>
          if op = AND then validateMessageValueAtPos n p x exprType fieldContext reportPos
          else Some []
      | _ \<Rightarrow> Some [])"
| "validateVariableMessageAtPos 0 p i exprType fieldContext reportPos = None"
| "validateVariableMessageAtPos (Suc n) p i exprType fieldContext reportPos =
     (case ObjectOf p (id_node i) of
        None \<Rightarrow> Some []
      | Some obj \<Rightarrow>
          (case lookupValueSpec p obj (Files p) of
             None \<Rightarrow> Some []
           | Some decl \<Rightarrow>
               if spec_Values decl = []
               then (case exprType of
                       Pointer _ \<Rightarrow>
                         Some [Reportf reportPos VariableNil [id_Name i, fieldContext]]
                     | _ \<Rightarrow> Some [])
               else
                 forEach
                   (\<lambda>val.
                      if isCompositeLit val
                      then validateCompositeLiteralMessageAtUse n p val exprType
                             fieldContext reportPos
                      else addressedComposite p val
                             (\<lambda>comp compType.
                                validateCompositeLiteralMessageAtUse n p comp compType
                                  fieldContext reportPos))
                   (declValues p obj (spec_Names decl) (spec_Values decl))))"

definition handleValidation ::
  "nat \<Rightarrow> pass \<Rightarrow> node \<Rightarrow> gtype \<Rightarrow> string \<Rightarrow> nat \<Rightarrow> diagnostic list option" where
  "handleValidation n p val exprType fieldContext reportPos =
     (if isCompositeLit val
      then (case TypeOf p (node_id val) of
              None \<Rightarrow> Some []
            | Some compType \<Rightarrow>
                validateCompositeLiteralMessageAtUse n p val compType fieldContext reportPos)
      else addressedComposite p val
             (\<lambda>comp compType.
                validateCompositeLiteralMessageAtUse n p comp compType fieldContext reportPos))"

subsection \<open>Validation reporting at the value\<close>

definition validateVariableMessage ::
  "nat \<Rightarrow> pass \<Rightarrow> ident \<Rightarrow> gtype \<Rightarrow> string \<Rightarrow> diagnostic list option" where
  "validateVariableMessage n p i exprType fieldContext =
     (case ObjectOf p (id_node i) of
        None \<Rightarrow> Some []
      | Some obj \<Rightarrow>
          (case lookupDeclaration p obj (Files p) (None, None) of
             (decl, declAssign) \<Rightarrow>
               (case (case declAssign of
                        None \<Rightarrow> None
                      | Some assign \<Rightarrow>
                          definedValue p obj (assign_Lhs assign) (assign_Rhs assign)) of
                  Some None \<Rightarrow> Some []
                | Some (Some val) \<Rightarrow>
                    handleValidation n p val exprType fieldContext (id_pos i)
                | None \<Rightarrow>
                    (case decl of
                       None \<Rightarrow> Some []
                     | Some d \<Rightarrow>
                         if spec_Values d = []
                         then (case exprType of
                                 Pointer _ \<Rightarrow>
                                   Some [Reportf (id_pos i) VariableNil
                                           [id_Name i, fieldContext]]
                               | _ \<Rightarrow> Some [])
                         else
                           forEach
                             (\<lambda>val. handleValidation n p val exprType fieldContext (id_pos i))
                             (declValues p obj (spec_Names d) (spec_Values d))))))"

fun validateMessageValue ::
  "nat \<Rightarrow> pass \<Rightarrow> node \<Rightarrow> gtype \<Rightarrow> string \<Rightarrow> diagnostic list option"
and validateCompositeLiteralMessage ::
  "nat \<Rightarrow> pass \<Rightarrow> node \<Rightarrow> gtype \<Rightarrow> string \<Rightarrow> diagnostic list option" where
  "validateMessageValue 0 p expr exprType fieldContext = None"
| "validateMessageValue (Suc n) p expr exprType fieldContext =
     (case expr of
        Ident e \<Rightarrow> validateVariableMessage n p e exprType fieldContext
      | CompositeLit _ _ _ _ \<Rightarrow> validateCompositeLiteralMessage n p expr exprType fieldContext
      | CallExpr _ _ _ _ \<Rightarrow> Some []
      | UnaryExpr _ _ op x \<Rightarrow>
          if op = AND then validateMessageValue n p x exprType fieldContext else Some []
      | SelectorExpr _ _ _ _ \<Rightarrow> Some []
      | _ \<Rightarrow> Some [])"
| "validateCompositeLiteralMessage 0 p lit litType fieldContext = None"
| "validateCompositeLiteralMessage (Suc n) p lit litType fieldContext =
     (case getStructType p litType of
        None \<Rightarrow> Some []
      | Some structType \<Rightarrow>
          if getMessageFields p structType = [] then Some []
          else
            validateFields (getMessageFields p structType)
              (\<lambda>fieldName val.
                 checkValue p (isNilValue n p val)
                   (Reportf (node_Pos val) NilAssignmentNested
                      [fieldContext, fieldName, TypeString p litType])
                   val
                   (\<lambda>valueType.
                      validateMessageValue n p val valueType (fieldContext @ ''.'' @ fieldName)))
              (Elts lit)
              (\<lambda>name. Reportf (node_Pos lit) NotInitializedNested
                        [fieldContext, name, TypeString p litType]))"

section \<open>The entry points (analyzer.go)\<close>

definition checkAssignmentAt :: "nat \<Rightarrow> pass \<Rightarrow> node \<Rightarrow> node \<Rightarrow> diagnostic list option" where
  "checkAssignmentAt n p lhs rhs =
     (case lhs of
        SelectorExpr _ _ x sel \<Rightarrow>
          (case TypeOf p (node_id x) of
             None \<Rightarrow> Some []
           | Some baseType \<Rightarrow>
               if \<not> isResponseMessage p (deref baseType) then Some []
               else
                 (case getFieldFromType p (deref baseType) (id_Name sel) of
                    None \<Rightarrow> Some []
                  | Some field \<Rightarrow>
                      if \<not> isMessageField p field then Some []
                      else if isOptionalField field then Some []
                      else
                        checkValue p (isNilValue n p rhs)
                          (Reportf (node_Pos rhs) NilAssignment
                             [id_Name sel, TypeString p (deref baseType)])
                          rhs
                          (\<lambda>rhsType. validateMessageValue n p rhs rhsType (id_Name sel))))
      | _ \<Rightarrow> Some [])"

text \<open>\<^verbatim>\<open>for i := 0; i < len(stmt.Lhs) && i < len(stmt.Rhs); i++\<close>\<close>

definition checkAssignment :: "nat \<Rightarrow> pass \<Rightarrow> node \<Rightarrow> diagnostic list option" where
  "checkAssignment n p stmt =
     forEach (\<lambda>lr. checkAssignmentAt n p (fst lr) (snd lr))
       (zip (assign_Lhs stmt) (assign_Rhs stmt))"

definition checkCompositeLiteral ::
  "nat \<Rightarrow> pass \<Rightarrow> node \<Rightarrow> gtype \<Rightarrow> diagnostic list option" where
  "checkCompositeLiteral n p lit litType =
     (if \<not> isResponseMessage p litType then Some []
      else
        (case getStructType p litType of
           None \<Rightarrow> Some []
         | Some structType \<Rightarrow>
             if getMessageFields p structType = [] then Some []
             else
               validateFields (getMessageFields p structType)
                 (\<lambda>fieldName val.
                    checkValue p (isNilValue n p val)
                      (Reportf (node_Pos val) NilAssignment [fieldName, TypeString p litType])
                      val
                      (\<lambda>valueType. validateMessageValue n p val valueType fieldName))
                 (Elts lit)
                 (\<lambda>name. Reportf (node_Pos lit) NotInitialized [name, TypeString p litType])))"

text \<open>
  The state of \<^verbatim>\<open>run\<close>: the map \<^verbatim>\<open>analyzedComposites\<close>, keyed by node identity,
  and the diagnostics reported so far.
\<close>

type_synonym run_state = "(nat \<Rightarrow> bool) \<times> diagnostic list"

text \<open>\<^verbatim>\<open>for _, result := range stmt.Results\<close> of the \<^verbatim>\<open>*ast.ReturnStmt\<close> case.\<close>

fun returnResults :: "nat \<Rightarrow> pass \<Rightarrow> node list \<Rightarrow> run_state \<Rightarrow> run_state option" where
  "returnResults n p [] st = Some st"
| "returnResults n p (result # results) st =
     (case result of
        CompositeLit k _ _ _ \<Rightarrow>
          if fst st k then returnResults n p results st
          else
            (case TypeOf p k of
               None \<Rightarrow> returnResults n p results ((fst st)(k := True), snd st)
             | Some litType \<Rightarrow>
                 if isResponseMessage p litType
                 then (case checkCompositeLiteral n p result litType of
                         None \<Rightarrow> None
                       | Some ds \<Rightarrow>
                           returnResults n p results ((fst st)(k := True), snd st @ ds))
                 else returnResults n p results ((fst st)(k := True), snd st))
      | _ \<Rightarrow> returnResults n p results st)"

text \<open>The function \<^verbatim>\<open>run\<close> passes to \<^verbatim>\<open>inspect.Preorder\<close>.\<close>

definition visit :: "nat \<Rightarrow> pass \<Rightarrow> node \<Rightarrow> run_state \<Rightarrow> run_state option" where
  "visit n p stmt st =
     (case stmt of
        AssignStmt _ _ _ _ _ \<Rightarrow>
          (case checkAssignment n p stmt of
             None \<Rightarrow> None
           | Some ds \<Rightarrow> Some (fst st, snd st @ ds))
      | CompositeLit k _ _ _ \<Rightarrow>
          if fst st k then Some st
          else
            (case TypeOf p k of
               None \<Rightarrow> Some ((fst st)(k := True), snd st)
             | Some litType \<Rightarrow>
                 if isResponseMessage p litType
                 then (case checkCompositeLiteral n p stmt litType of
                         None \<Rightarrow> None
                       | Some ds \<Rightarrow> Some ((fst st)(k := True), snd st @ ds))
                 else Some ((fst st)(k := True), snd st))
      | ReturnStmt _ _ results \<Rightarrow> returnResults n p results st
      | _ \<Rightarrow> Some st)"

fun visitAll :: "(node \<Rightarrow> run_state \<Rightarrow> run_state option) \<Rightarrow> node list \<Rightarrow> run_state \<Rightarrow> run_state option" where
  "visitAll f [] st = Some st"
| "visitAll f (x # xs) st = (case f x st of None \<Rightarrow> None | Some st' \<Rightarrow> visitAll f xs st')"

definition run :: "nat \<Rightarrow> pass \<Rightarrow> diagnostic list option" where
  "run n p =
     (if list_ex (\<lambda>file. HasSuffix (file_Name file) ''.pb.go'') (Files p) then Some []
      else map_option snd
             (visitAll (visit n p) (concat (map (\<lambda>file. preorder (file_Node file)) (Files p)))
                (\<lambda>_. False, [])))"

section \<open>Predicates on the input\<close>

definition isCollection :: "gtype \<Rightarrow> bool" where
  "isCollection t =
     (case t of Slice _ \<Rightarrow> True | Array _ _ \<Rightarrow> True | MapType _ _ \<Rightarrow> True | _ \<Rightarrow> False)"

definition isKeyValue :: "node \<Rightarrow> bool" where
  "isKeyValue elt = (case elt of KeyValueExpr _ _ _ _ \<Rightarrow> True | _ \<Rightarrow> False)"




text \<open>The field names the keyed elements of a composite literal give.\<close>

fun keyNames :: "node list \<Rightarrow> string list" where
  "keyNames [] = []"
| "keyNames (elt # elts) =
     (case elt of
        KeyValueExpr _ _ key val \<Rightarrow>
          (case key of Ident i \<Rightarrow> id_Name i # keyNames elts | _ \<Rightarrow> keyNames elts)
      | _ \<Rightarrow> keyNames elts)"

text \<open>
  The diagnostics of the loop over the elements alone, without the map
  \<^verbatim>\<open>initialized\<close>: what \<open>compositeElts\<close> appends (lemma \<open>compositeElts_eq\<close>).
\<close>

fun eltsDiagnostics ::
  "var list \<Rightarrow> (string \<Rightarrow> node \<Rightarrow> diagnostic list option) \<Rightarrow> node list \<Rightarrow> diagnostic list option" where
  "eltsDiagnostics messageFields check [] = Some []"
| "eltsDiagnostics messageFields check (elt # elts) =
     (case elt of
        KeyValueExpr _ _ key val \<Rightarrow>
          (case key of
             Ident i \<Rightarrow>
               (case findByName messageFields (id_Name i) of
                  None \<Rightarrow> eltsDiagnostics messageFields check elts
                | Some field \<Rightarrow>
                    (case check (id_Name i) val of
                       None \<Rightarrow> None
                     | Some ds \<Rightarrow> map_option ((@) ds) (eltsDiagnostics messageFields check elts)))
           | _ \<Rightarrow> eltsDiagnostics messageFields check elts)
      | _ \<Rightarrow> eltsDiagnostics messageFields check elts)"




section \<open>Example inputs\<close>

text \<open>
  The message types the repository's test data is written against
  (\<^verbatim>\<open>gen/example/v1\<close>, \<^verbatim>\<open>timestamppb\<close>, \<^verbatim>\<open>wrapperspb\<close>), with the fields the tests
  use: 1 \<^verbatim>\<open>UserResponse\<close>, 2 \<^verbatim>\<open>User\<close>, 3 \<^verbatim>\<open>Address\<close>, 4 \<^verbatim>\<open>Location\<close>,
  5 \<^verbatim>\<open>ContactInfo\<close>, 6 \<^verbatim>\<open>timestamppb.Timestamp\<close>, 7 \<^verbatim>\<open>wrapperspb.StringValue\<close>.
\<close>

definition protoMessage :: func where
  "protoMessage = \<lparr>func_Name = ''ProtoMessage'', func_Type = Signature 0 0\<rparr>"

definition message :: "string \<Rightarrow> string \<Rightarrow> var list \<Rightarrow> named" where
  "message pkg name structType =
     \<lparr>named_Obj = Some \<lparr>tn_Name = name, tn_Pkg = Some pkg\<rparr>,
      named_Methods = [protoMessage], named_Underlying = Struct structType\<rparr>"

definition examplePkg :: string where
  "examplePkg = ''github.com/nickheyer/go_no_nil_linter/gen/example/v1''"

definition userResponseFields :: "var list" where
  "userResponseFields =
     [Var ''state'' False (Basic ''protoimpl.MessageState''),
      Var ''User'' True (Pointer (Named 2)),
      Var ''LastLogin'' True (Pointer (Named 6)),
      Var ''RelatedUsers'' True (Slice (Pointer (Named 2)))]"

definition userFields :: "var list" where
  "userFields =
     [Var ''Id'' True (Basic ''string''),
      Var ''Name'' True (Basic ''string''),
      Var ''Address'' True (Pointer (Named 3)),
      Var ''CreatedAt'' True (Pointer (Named 6)),
      Var ''ContactInfo'' True (Pointer (Named 5)),
      Var ''Nickname'' True (Pointer (Basic ''string''))]"

definition addressFields :: "var list" where
  "addressFields =
     [Var ''Street'' True (Basic ''string''),
      Var ''City'' True (Basic ''string''),
      Var ''PostalCode'' True (Basic ''string''),
      Var ''Location'' True (Pointer (Named 4))]"

definition exampleTypes :: "nat \<Rightarrow> named" where
  "exampleTypes k =
     (if k = 1 then message examplePkg ''UserResponse'' userResponseFields
      else if k = 2 then message examplePkg ''User'' userFields
      else if k = 3 then message examplePkg ''Address'' addressFields
      else if k = 4 then message examplePkg ''Location''
        [Var ''Latitude'' True (Basic ''float64''), Var ''Longitude'' True (Basic ''float64'')]
      else if k = 5 then message examplePkg ''ContactInfo''
        [Var ''Email'' True (Basic ''string''), Var ''Phone'' True (Basic ''string'')]
      else if k = 6 then message ''google.golang.org/protobuf/types/known/timestamppb''
        ''Timestamp''
        [Var ''Seconds'' True (Basic ''int64''), Var ''Nanos'' True (Basic ''int32'')]
      else message ''google.golang.org/protobuf/types/known/wrapperspb'' ''StringValue''
        [Var ''Value'' True (Basic ''string'')])"

fun typeName :: "gtype \<Rightarrow> string" where
  "typeName (Pointer t) = CHR ''*'' # typeName t"
| "typeName (Named k) =
     (case named_Obj (exampleTypes k) of Some obj \<Rightarrow> tn_Name obj | None \<Rightarrow> [])"
| "typeName (Basic s) = s"
| "typeName _ = []"

definition examplePass ::
  "gofile list \<Rightarrow> (nat \<Rightarrow> gtype option) \<Rightarrow> (nat \<Rightarrow> object option) \<Rightarrow> pass" where
  "examplePass files typeOf objectOf =
     \<lparr>Files = files, TypeOf = typeOf, ObjectOf = objectOf,
      Types = (\<lambda>k. map_option (\<lambda>t. \<lparr>tv_Type = t, tv_Value = None\<rparr>) (typeOf k)),
      NamedTypes = exampleTypes, TypeString = typeName\<rparr>"

definition noTypes :: "nat \<Rightarrow> gtype option" where
  "noTypes k = None"

definition noObjects :: "nat \<Rightarrow> object option" where
  "noObjects k = None"

text \<open>\<^verbatim>\<open>UserResponse{nil, nil, nil, nil}\<close> in \<^verbatim>\<open>handler.go\<close>, beside a generated file.\<close>

definition positionalLiteral :: node where
  "positionalLiteral =
     CompositeLit 10 10 (Some (OtherNode 11 10 []))
       [Ident (Id 12 12 ''nil''), Ident (Id 13 13 ''nil''), Ident (Id 14 14 ''nil''),
        Ident (Id 15 15 ''nil'')]"

definition literalTypes :: "nat \<Rightarrow> gtype option" where
  "literalTypes k = (if k = 10 then Some (Named 1) else None)"

definition handlerFile :: gofile where
  "handlerFile = \<lparr>file_Name = ''handler.go'', file_Node = OtherNode 1 1 [positionalLiteral]\<rparr>"

definition generatedFile :: gofile where
  "generatedFile = \<lparr>file_Name = ''user.pb.go'', file_Node = OtherNode 2 1 []\<rparr>"

definition untypedNil :: gtype where
  "untypedNil = Basic ''untyped nil''"

definition nilObject :: object where
  "nilObject = \<lparr>obj_id = 0, obj_Type = untypedNil\<rparr>"

definition tableOf :: "(nat list \<times> 'a) list \<Rightarrow> nat \<Rightarrow> 'a option" where
  "tableOf rows k = map_option snd (find (\<lambda>row. k \<in> set (fst row)) rows)"

definition sourceFile :: "string \<Rightarrow> node list \<Rightarrow> gofile" where
  "sourceFile name decls = \<lparr>file_Name = name, file_Node = OtherNode 1 1 decls\<rparr>"

definition stringLit :: "nat \<Rightarrow> node" where
  "stringLit k = OtherNode k k []"

definition typeExpr :: "nat \<Rightarrow> nat \<Rightarrow> node option" where
  "typeExpr k q = Some (OtherNode k q [])"

text \<open>
  \<^verbatim>\<open>implicitNilAssignment\<close> of \<^verbatim>\<open>testdata/src/invalid/invalid.go\<close>:
  \<^verbatim>\<open>var user *examplev1.User; response := &examplev1.UserResponse{}; response.User = user\<close>.
  Node 124 is the \<^verbatim>\<open>user\<close> on the right of the assignment.
\<close>

definition implicitNilAssignment :: node where
  "implicitNilAssignment =
     OtherNode 100 100
       [OtherNode 101 101
          [ValueSpec 102 103 [Id 103 103 ''user''] (typeExpr 104 104) []],
        AssignStmt 110 111 [Ident (Id 111 111 ''response'')] DEFINE
          [UnaryExpr 112 112 AND (CompositeLit 113 113 (typeExpr 114 113) [])],
        AssignStmt 120 122
          [SelectorExpr 121 122 (Ident (Id 122 122 ''response'')) (Id 123 123 ''User'')] ASSIGN
          [Ident (Id 124 124 ''user'')]]"

definition implicitNilPass :: pass where
  "implicitNilPass =
     examplePass [sourceFile ''invalid.go'' [implicitNilAssignment]]
       (tableOf [([103, 124, 121], Pointer (Named 2)), ([111, 112, 122], Pointer (Named 1)),
                 ([113], Named 1)])
       (tableOf [([103, 124], \<lparr>obj_id = 1, obj_Type = Pointer (Named 2)\<rparr>),
                 ([111, 122], \<lparr>obj_id = 2, obj_Type = Pointer (Named 1)\<rparr>),
                 ([123], \<lparr>obj_id = 3, obj_Type = Pointer (Named 2)\<rparr>)])"

text \<open>
  \<^verbatim>\<open>deeplyNestedNil\<close> of the same file:
  \<^verbatim>\<open>addr := &examplev1.Address{Street: "123 Main St", City: "NYC", PostalCode: "10001", Location: nil}\<close>,
  \<^verbatim>\<open>user := &examplev1.User{Id: "123", Name: "John", Address: addr}\<close>,
  \<^verbatim>\<open>_ = &examplev1.UserResponse{User: user, LastLogin: nil}\<close>.
  Node 247 is the \<^verbatim>\<open>user\<close> in the last literal, node 217 the \<^verbatim>\<open>nil\<close> of
  \<^verbatim>\<open>Location\<close>.
\<close>

definition deeplyNestedNil :: node where
  "deeplyNestedNil =
     OtherNode 200 200
       [AssignStmt 201 202 [Ident (Id 202 202 ''addr'')] DEFINE
          [UnaryExpr 203 203 AND
             (CompositeLit 204 204 (typeExpr 205 204)
                [KeyValueExpr 206 207 (Ident (Id 207 207 ''Street'')) (stringLit 208),
                 KeyValueExpr 209 210 (Ident (Id 210 210 ''City'')) (stringLit 211),
                 KeyValueExpr 212 213 (Ident (Id 213 213 ''PostalCode'')) (stringLit 214),
                 KeyValueExpr 215 216 (Ident (Id 216 216 ''Location'')) (Ident (Id 217 217 ''nil''))])],
        AssignStmt 220 221 [Ident (Id 221 221 ''user'')] DEFINE
          [UnaryExpr 222 222 AND
             (CompositeLit 223 223 (typeExpr 224 223)
                [KeyValueExpr 225 226 (Ident (Id 226 226 ''Id'')) (stringLit 227),
                 KeyValueExpr 228 229 (Ident (Id 229 229 ''Name'')) (stringLit 230),
                 KeyValueExpr 231 232 (Ident (Id 232 232 ''Address'')) (Ident (Id 233 233 ''addr''))])],
        AssignStmt 240 241 [Ident (Id 241 241 ''_'')] ASSIGN
          [UnaryExpr 242 242 AND
             (CompositeLit 243 243 (typeExpr 244 243)
                [KeyValueExpr 245 246 (Ident (Id 246 246 ''User'')) (Ident (Id 247 247 ''user'')),
                 KeyValueExpr 248 249 (Ident (Id 249 249 ''LastLogin''))
                   (Ident (Id 250 250 ''nil''))])]]"

definition deeplyNestedPass :: pass where
  "deeplyNestedPass =
     examplePass [sourceFile ''invalid.go'' [deeplyNestedNil]]
       (tableOf [([202, 203, 233], Pointer (Named 3)), ([204], Named 3),
                 ([221, 222, 247], Pointer (Named 2)), ([223], Named 2),
                 ([242], Pointer (Named 1)), ([243], Named 1),
                 ([208, 211, 214, 227, 230], Basic ''string''),
                 ([217, 250], untypedNil)])
       (tableOf [([202, 233], \<lparr>obj_id = 1, obj_Type = Pointer (Named 3)\<rparr>),
                 ([221, 247], \<lparr>obj_id = 2, obj_Type = Pointer (Named 2)\<rparr>),
                 ([217, 250], nilObject)])"

text \<open>
  The same three levels with \<^verbatim>\<open>var\<close> declarations and the other fields of
  \<^verbatim>\<open>User\<close> given:
  \<^verbatim>\<open>var addr = &examplev1.Address{Location: nil}\<close>,
  \<^verbatim>\<open>var user = &examplev1.User{Address: addr, CreatedAt: timestamppb.Now(), ContactInfo: &examplev1.ContactInfo{}}\<close>,
  \<^verbatim>\<open>_ = &examplev1.UserResponse{User: user, LastLogin: timestamppb.Now()}\<close>.
  Node 437 is the \<^verbatim>\<open>user\<close> in the last literal.
\<close>

definition deeplyNestedVar :: node where
  "deeplyNestedVar =
     OtherNode 400 400
       [OtherNode 401 401
          [ValueSpec 402 403 [Id 403 403 ''addr''] None
             [UnaryExpr 404 404 AND
                (CompositeLit 405 405 (typeExpr 406 405)
                   [KeyValueExpr 407 408 (Ident (Id 408 408 ''Location''))
                      (Ident (Id 409 409 ''nil''))])]],
        OtherNode 410 410
          [ValueSpec 411 412 [Id 412 412 ''user''] None
             [UnaryExpr 413 413 AND
                (CompositeLit 414 414 (typeExpr 415 414)
                   [KeyValueExpr 416 417 (Ident (Id 417 417 ''Address''))
                      (Ident (Id 418 418 ''addr'')),
                    KeyValueExpr 419 420 (Ident (Id 420 420 ''CreatedAt''))
                      (CallExpr 421 421 (OtherNode 422 421 []) []),
                    KeyValueExpr 423 424 (Ident (Id 424 424 ''ContactInfo''))
                      (UnaryExpr 425 425 AND (CompositeLit 426 426 (typeExpr 427 426) []))])]],
        AssignStmt 430 431 [Ident (Id 431 431 ''_'')] ASSIGN
          [UnaryExpr 432 432 AND
             (CompositeLit 433 433 (typeExpr 434 433)
                [KeyValueExpr 435 436 (Ident (Id 436 436 ''User'')) (Ident (Id 437 437 ''user'')),
                 KeyValueExpr 438 439 (Ident (Id 439 439 ''LastLogin''))
                   (CallExpr 440 440 (OtherNode 441 440 []) [])])]]"

definition deeplyNestedVarPass :: pass where
  "deeplyNestedVarPass =
     examplePass [sourceFile ''invalid.go'' [deeplyNestedVar]]
       (tableOf [([403, 404, 418], Pointer (Named 3)), ([405], Named 3),
                 ([412, 413, 437], Pointer (Named 2)), ([414], Named 2),
                 ([421, 440], Pointer (Named 6)), ([425], Pointer (Named 5)), ([426], Named 5),
                 ([432], Pointer (Named 1)), ([433], Named 1),
                 ([409], untypedNil)])
       (tableOf [([403, 418], \<lparr>obj_id = 1, obj_Type = Pointer (Named 3)\<rparr>),
                 ([412, 437], \<lparr>obj_id = 2, obj_Type = Pointer (Named 2)\<rparr>),
                 ([409], nilObject)])"

text \<open>The slice field \<^verbatim>\<open>RelatedUsers []*User\<close> of \<^verbatim>\<open>UserResponse\<close>.\<close>

definition relatedUsers :: var where
  "relatedUsers = Var ''RelatedUsers'' True (Slice (Pointer (Named 2)))"

definition collectionPass :: pass where
  "collectionPass = examplePass [] (tableOf [([30], Pointer (Named 1))]) noObjects"










text \<open>\<^verbatim>\<open>return examplev1.UserResponse{}\<close>: the literal is a result of the return
  statement and a node of its own.\<close>

definition returnStmt :: node where
  "returnStmt = ReturnStmt 500 500 [CompositeLit 501 501 (typeExpr 502 501) []]"

definition returnPass :: pass where
  "returnPass =
     examplePass [sourceFile ''handler.go'' [OtherNode 499 499 [returnStmt]]]
       (tableOf [([501], Named 1)]) noObjects"


section \<open>Fuel\<close>

text \<open>A run that has returned within some fuel returns the same with more.\<close>

declare validateCompositeLiteralMessageAtUse.simps [simp del]
declare validateMessageValueAtPos.simps [simp del]
declare validateVariableMessageAtPos.simps [simp del]
declare validateMessageValue.simps [simp del]
declare validateCompositeLiteralMessage.simps [simp del]
declare isNilValue.simps [simp del]
declare isNilVariable.simps [simp del]

lemma fuel_le:
  fixes f :: "nat \<Rightarrow> 'a option"
  assumes "\<And>k r. f k = Some r \<Longrightarrow> f (Suc k) = Some r" and "f n = Some r" and "n \<le> m"
  shows "f m = Some r"
  using assms(3,2) by (induction rule: dec_induct) (auto intro: assms(1))

lemma anyNil_mono:
  "(\<And>v b. v \<in> set vs \<Longrightarrow> f v = Some b \<Longrightarrow> g v = Some b)
   \<Longrightarrow> anyNil f vs = Some b \<Longrightarrow> anyNil g vs = Some b"
proof (induction vs)
  case Nil
  then show ?case by simp
next
  case (Cons v vs)
  from Cons.prems(2) obtain c where c: "f v = Some c"
    by (cases "f v") auto
  then have g: "g v = Some c" using Cons.prems(1) by simp
  show ?case
  proof (cases c)
    case True
    with c g Cons.prems(2) show ?thesis by simp
  next
    case False
    with c Cons.prems(2) have "anyNil f vs = Some b" by simp
    then have "anyNil g vs = Some b" using Cons.IH Cons.prems(1) by simp
    with g False show ?thesis by simp
  qed
qed

lemma forEach_mono:
  "(\<And>x ds. x \<in> set xs \<Longrightarrow> f x = Some ds \<Longrightarrow> g x = Some ds)
   \<Longrightarrow> forEach f xs = Some r \<Longrightarrow> forEach g xs = Some r"
proof (induction xs arbitrary: r)
  case Nil
  then show ?case by simp
next
  case (Cons x xs)
  from Cons.prems(2) obtain ds ds' where d: "f x = Some ds" "forEach f xs = Some ds'" "r = ds @ ds'"
    by (auto split: option.splits)
  have "g x = Some ds" using Cons.prems(1) d(1) by simp
  moreover have "forEach g xs = Some ds'" using Cons.IH Cons.prems(1) d(2) by simp
  ultimately show ?case using d(3) by simp
qed

lemma compositeElts_mono:
  "(\<And>name val ds. check name val = Some ds \<Longrightarrow> check' name val = Some ds)
   \<Longrightarrow> compositeElts mf check elts st = Some r \<Longrightarrow> compositeElts mf check' elts st = Some r"
proof (induction elts arbitrary: st)
  case Nil
  then show ?case by simp
next
  case (Cons elt elts)
  show ?case
    using Cons.prems(2) Cons.IH Cons.prems(1)
    by (auto split: node.splits option.splits)
qed

lemma isNilValue_Ident:
  "isNilValue (Suc n) p (Ident i) = (if id_Name i = ''nil'' then Some True else isNilVariable n p i)"
  by (simp add: isNilValue.simps isNilIdent_def isTypedNil_def split: option.splits bool.splits)

lemma isNilValue_UnaryExpr:
  "isNilValue (Suc n) p (UnaryExpr k q op x) = (if op = AND then isNilValue n p x else Some False)"
  by (simp add: isNilValue.simps isNilIdent_def isTypedNil_def)

lemma isNilValue_other:
  "(\<And>i. e \<noteq> Ident i) \<Longrightarrow> (\<And>k q op x. e \<noteq> UnaryExpr k q op x)
   \<Longrightarrow> isNilValue (Suc n) p e = Some (isTypedNil e)"
  by (cases e) (auto simp: isNilValue.simps isNilIdent_def isTypedNil_def)

lemma isNil_mono_step:
  "(\<forall>e b. isNilValue n p e = Some b \<longrightarrow> isNilValue (Suc n) p e = Some b)
   \<and> (\<forall>i b. isNilVariable n p i = Some b \<longrightarrow> isNilVariable (Suc n) p i = Some b)"
proof (induction n)
  case 0
  show ?case by (simp add: isNilValue.simps isNilVariable.simps)
next
  case (Suc n)
  then have IHe: "\<And>e b. isNilValue n p e = Some b \<Longrightarrow> isNilValue (Suc n) p e = Some b"
    and IHv: "\<And>i b. isNilVariable n p i = Some b \<Longrightarrow> isNilVariable (Suc n) p i = Some b"
    by blast+
  have A: "anyNil (\<lambda>v. isNilValue (Suc n) p v) vs = Some b"
    if "anyNil (\<lambda>v. isNilValue n p v) vs = Some b" for vs b
    using that by (rule anyNil_mono [rotated]) (rule IHe)
  have v: "isNilVariable (Suc (Suc n)) p i = Some b" if "isNilVariable (Suc n) p i = Some b" for i b
    using that A
    by (auto simp: isNilVariable.simps(2) [of "Suc n"] isNilVariable.simps(2) [of n]
        split: option.splits if_splits)
  have e: "isNilValue (Suc (Suc n)) p e = Some b" if h: "isNilValue (Suc n) p e = Some b" for e b
  proof (cases e)
    case (Ident i)
    with h IHv show ?thesis by (simp add: isNilValue_Ident split: if_splits)
  next
    case (UnaryExpr k q op x)
    with h IHe show ?thesis by (simp add: isNilValue_UnaryExpr split: if_splits)
  qed (use h in \<open>simp_all add: isNilValue_other\<close>)
  from v e show ?case by blast
qed

lemma isNilValue_mono: "isNilValue n p e = Some b \<Longrightarrow> n \<le> m \<Longrightarrow> isNilValue m p e = Some b"
  using isNil_mono_step by (rule_tac fuel_le [where f = "\<lambda>n. isNilValue n p e"]) auto



lemma checkValue_mono:
  "(\<And>b. isNil = Some b \<Longrightarrow> isNil' = Some b)
   \<Longrightarrow> (\<And>t ds. validate t = Some ds \<Longrightarrow> validate' t = Some ds)
   \<Longrightarrow> checkValue p isNil d val validate = Some ds
   \<Longrightarrow> checkValue p isNil' d val validate' = Some ds"
  by (auto simp: checkValue_def split: option.splits bool.splits if_splits)

lemma validateFields_mono:
  assumes "\<And>name val ds. check name val = Some ds \<Longrightarrow> check' name val = Some ds"
    and "validateFields mf check elts report = Some r"
  shows "validateFields mf check' elts report = Some r"
proof -
  from assms(2) obtain st where st: "compositeElts mf check elts (\<lambda>_. False, []) = Some st"
    "r = snd st @ uninitializedFields mf (fst st) report"
    by (auto simp: validateFields_def split: option.splits)
  from compositeElts_mono [of check check', OF assms(1) st(1)] st(2) show ?thesis
    by (simp add: validateFields_def)
qed

lemma addressedComposite_mono:
  "(\<And>comp t ds. validate comp t = Some ds \<Longrightarrow> validate' comp t = Some ds)
   \<Longrightarrow> addressedComposite p val validate = Some ds
   \<Longrightarrow> addressedComposite p val validate' = Some ds"
  by (auto simp: addressedComposite_def split: node.splits option.splits if_splits)

lemma AtUse_mono_step:
  "(\<forall>lit t c q r. validateCompositeLiteralMessageAtUse n p lit t c q = Some r
       \<longrightarrow> validateCompositeLiteralMessageAtUse (Suc n) p lit t c q = Some r)
   \<and> (\<forall>e t c q r. validateMessageValueAtPos n p e t c q = Some r
       \<longrightarrow> validateMessageValueAtPos (Suc n) p e t c q = Some r)
   \<and> (\<forall>i t c q r. validateVariableMessageAtPos n p i t c q = Some r
       \<longrightarrow> validateVariableMessageAtPos (Suc n) p i t c q = Some r)"
proof (induction n)
  case 0
  show ?case
    by (simp add: validateCompositeLiteralMessageAtUse.simps validateMessageValueAtPos.simps
        validateVariableMessageAtPos.simps)
next
  case (Suc n)
  then have IHu: "\<And>lit t c q r. validateCompositeLiteralMessageAtUse n p lit t c q = Some r
       \<Longrightarrow> validateCompositeLiteralMessageAtUse (Suc n) p lit t c q = Some r"
    and IHp: "\<And>e t c q r. validateMessageValueAtPos n p e t c q = Some r
       \<Longrightarrow> validateMessageValueAtPos (Suc n) p e t c q = Some r"
    and IHv: "\<And>i t c q r. validateVariableMessageAtPos n p i t c q = Some r
       \<Longrightarrow> validateVariableMessageAtPos (Suc n) p i t c q = Some r"
    by blast+
  have nil: "\<And>e b. isNilValue n p e = Some b \<Longrightarrow> isNilValue (Suc n) p e = Some b"
    using isNil_mono_step by blast
  have u: "validateCompositeLiteralMessageAtUse (Suc (Suc n)) p lit t c q = Some r"
    if h: "validateCompositeLiteralMessageAtUse (Suc n) p lit t c q = Some r" for lit t c q r
  proof (cases "getStructType p t")
    case None
    with h show ?thesis by (simp add: validateCompositeLiteralMessageAtUse.simps(2))
  next
    case (Some structType)
    show ?thesis
    proof (cases "getMessageFields p structType = []")
      case True
      with h Some show ?thesis by (simp add: validateCompositeLiteralMessageAtUse.simps(2))
    next
      case False
      from h Some False show ?thesis
        unfolding validateCompositeLiteralMessageAtUse.simps(2) [of "Suc n"]
          validateCompositeLiteralMessageAtUse.simps(2) [of n]
        apply simp
        apply (erule validateFields_mono [rotated])
        apply (erule checkValue_mono [rotated 2])
         apply (erule nil)
        apply (erule IHp)
        done
    qed
  qed
  have e: "validateMessageValueAtPos (Suc (Suc n)) p e t c q = Some r"
    if h: "validateMessageValueAtPos (Suc n) p e t c q = Some r" for e t c q r
    using h IHu IHp IHv
    by (cases e) (auto simp: validateMessageValueAtPos.simps(2) split: if_splits)
  have F: "forEach (\<lambda>val. if isCompositeLit val
                then validateCompositeLiteralMessageAtUse (Suc n) p val t c q
                else addressedComposite p val
                       (\<lambda>comp compType. validateCompositeLiteralMessageAtUse (Suc n) p comp compType c q))
              vs = Some r"
    if "forEach (\<lambda>val. if isCompositeLit val
                then validateCompositeLiteralMessageAtUse n p val t c q
                else addressedComposite p val
                       (\<lambda>comp compType. validateCompositeLiteralMessageAtUse n p comp compType c q))
              vs = Some r" for vs t c q r
    using that
    apply (rule forEach_mono [rotated])
    apply (auto split: if_splits intro: IHu elim!: addressedComposite_mono [rotated])
    done
  have v: "validateVariableMessageAtPos (Suc (Suc n)) p i t c q = Some r"
    if h: "validateVariableMessageAtPos (Suc n) p i t c q = Some r" for i t c q r
    using h
    by (auto simp: validateVariableMessageAtPos.simps(2) split: option.splits if_splits
        intro: F)
  from u e v show ?case by blast
qed


lemma AtUse_mono:
  "validateCompositeLiteralMessageAtUse n p lit t c q = Some r \<Longrightarrow> n \<le> m
   \<Longrightarrow> validateCompositeLiteralMessageAtUse m p lit t c q = Some r"
  using AtUse_mono_step
  by (rule_tac fuel_le [where f = "\<lambda>n. validateCompositeLiteralMessageAtUse n p lit t c q"]) auto



lemma handleValidation_mono:
  "handleValidation n p val t c q = Some r \<Longrightarrow> n \<le> m \<Longrightarrow> handleValidation m p val t c q = Some r"
  unfolding handleValidation_def
  by (auto split: if_splits option.splits intro: AtUse_mono elim!: addressedComposite_mono [rotated])

lemma validateVariableMessage_mono:
  assumes "validateVariableMessage n p i t c = Some r" and "n \<le> m"
  shows "validateVariableMessage m p i t c = Some r"
proof -
  have F: "forEach (\<lambda>val. handleValidation m p val t c q) vs = Some r"
    if "forEach (\<lambda>val. handleValidation n p val t c q) vs = Some r" for vs q r
    using that
    by (rule forEach_mono [rotated]) (rule handleValidation_mono [OF _ assms(2)])
  from assms show ?thesis
    unfolding validateVariableMessage_def
    by (auto split: option.splits if_splits prod.splits intro: F handleValidation_mono)
qed

lemma Value_mono_step:
  "(\<forall>e t c r. validateMessageValue n p e t c = Some r
       \<longrightarrow> validateMessageValue (Suc n) p e t c = Some r)
   \<and> (\<forall>lit t c r. validateCompositeLiteralMessage n p lit t c = Some r
       \<longrightarrow> validateCompositeLiteralMessage (Suc n) p lit t c = Some r)"
proof (induction n)
  case 0
  show ?case by (simp add: validateMessageValue.simps validateCompositeLiteralMessage.simps)
next
  case (Suc n)
  then have IHe: "\<And>e t c r. validateMessageValue n p e t c = Some r
       \<Longrightarrow> validateMessageValue (Suc n) p e t c = Some r"
    and IHc: "\<And>lit t c r. validateCompositeLiteralMessage n p lit t c = Some r
       \<Longrightarrow> validateCompositeLiteralMessage (Suc n) p lit t c = Some r"
    by blast+
  have nil: "\<And>e b. isNilValue n p e = Some b \<Longrightarrow> isNilValue (Suc n) p e = Some b"
    using isNil_mono_step by blast
  have var: "\<And>i t c r. validateVariableMessage n p i t c = Some r
       \<Longrightarrow> validateVariableMessage (Suc n) p i t c = Some r"
    by (erule validateVariableMessage_mono) simp
  have e: "validateMessageValue (Suc (Suc n)) p e t c = Some r"
    if h: "validateMessageValue (Suc n) p e t c = Some r" for e t c r
    using h IHe IHc var
    by (cases e) (auto simp: validateMessageValue.simps(2) split: if_splits)
  have l: "validateCompositeLiteralMessage (Suc (Suc n)) p lit t c = Some r"
    if h: "validateCompositeLiteralMessage (Suc n) p lit t c = Some r" for lit t c r
  proof (cases "getStructType p t")
    case None
    with h show ?thesis by (simp add: validateCompositeLiteralMessage.simps(2))
  next
    case (Some structType)
    show ?thesis
    proof (cases "getMessageFields p structType = []")
      case True
      with h Some show ?thesis by (simp add: validateCompositeLiteralMessage.simps(2))
    next
      case False
      from h Some False show ?thesis
        unfolding validateCompositeLiteralMessage.simps(2) [of "Suc n"]
          validateCompositeLiteralMessage.simps(2) [of n]
        apply simp
        apply (erule validateFields_mono [rotated])
        apply (erule checkValue_mono [rotated 2])
         apply (erule nil)
        apply (erule IHe)
        done
    qed
  qed
  from e l show ?case by blast
qed

lemma validateMessageValue_mono:
  "validateMessageValue n p e t c = Some r \<Longrightarrow> n \<le> m \<Longrightarrow> validateMessageValue m p e t c = Some r"
  using Value_mono_step
  by (rule_tac fuel_le [where f = "\<lambda>n. validateMessageValue n p e t c"]) auto

lemma checkAssignmentAt_mono:
  "checkAssignmentAt n p lhs rhs = Some r \<Longrightarrow> n \<le> m \<Longrightarrow> checkAssignmentAt m p lhs rhs = Some r"
  unfolding checkAssignmentAt_def
  by (auto split: node.splits option.splits if_splits
      elim!: checkValue_mono [rotated 2] intro: isNilValue_mono validateMessageValue_mono)

lemma checkAssignment_mono:
  "checkAssignment n p stmt = Some r \<Longrightarrow> n \<le> m \<Longrightarrow> checkAssignment m p stmt = Some r"
  unfolding checkAssignment_def
  by (erule forEach_mono [rotated]) (auto intro: checkAssignmentAt_mono)

lemma checkCompositeLiteral_mono:
  "checkCompositeLiteral n p lit t = Some r \<Longrightarrow> n \<le> m \<Longrightarrow> checkCompositeLiteral m p lit t = Some r"
  unfolding checkCompositeLiteral_def
  by (auto split: option.splits if_splits
      elim!: validateFields_mono [rotated] checkValue_mono [rotated 2]
      intro: isNilValue_mono validateMessageValue_mono)

lemma returnResults_mono:
  "returnResults n p rs st = Some r \<Longrightarrow> n \<le> m \<Longrightarrow> returnResults m p rs st = Some r"
proof (induction rs arbitrary: st)
  case Nil
  then show ?case by simp
next
  case (Cons a rs)
  show ?case
    using Cons.prems Cons.IH
    by (auto split: node.splits option.splits if_splits dest: checkCompositeLiteral_mono)
qed

lemma visit_mono:
  "visit n p x st = Some r \<Longrightarrow> n \<le> m \<Longrightarrow> visit m p x st = Some r"
  unfolding visit_def
  by (auto split: node.splits option.splits if_splits
      dest: checkCompositeLiteral_mono checkAssignment_mono intro: returnResults_mono)

lemma visitAll_mono:
  "(\<And>x st r. f x st = Some r \<Longrightarrow> g x st = Some r)
   \<Longrightarrow> visitAll f xs st = Some r \<Longrightarrow> visitAll g xs st = Some r"
  by (induction xs arbitrary: st) (auto split: option.splits)

lemma run_mono:
  assumes "run n p = Some r" and "n \<le> m"
  shows "run m p = Some r"
proof (cases "list_ex (\<lambda>file. HasSuffix (file_Name file) ''.pb.go'') (Files p)")
  case True
  with assms show ?thesis by (simp add: run_def)
next
  case False
  with assms(1) obtain st where
    st: "visitAll (visit n p) (concat (map (\<lambda>file. preorder (file_Node file)) (Files p)))
           (\<lambda>_. False, []) = Some st" "r = snd st"
    by (auto simp: run_def)
  from st(1) have "visitAll (visit m p) (concat (map (\<lambda>file. preorder (file_Node file)) (Files p)))
           (\<lambda>_. False, []) = Some st"
    by (rule visitAll_mono [rotated]) (rule visit_mono [OF _ assms(2)])
  with False st(2) show ?thesis by (simp add: run_def)
qed

section \<open>Termination under ranked initializers\<close>





























lemma validateCompositeLiteralMessage_mono:
  "validateCompositeLiteralMessage n p e t c = Some r \<Longrightarrow> n \<le> m
   \<Longrightarrow> validateCompositeLiteralMessage m p e t c = Some r"
  using Value_mono_step
  by (rule_tac fuel_le [where f = "\<lambda>n. validateCompositeLiteralMessage n p e t c"]) auto















section \<open>The example inputs evaluated\<close>

lemmas example_defs = examplePass_def exampleTypes_def message_def protoMessage_def
  userResponseFields_def userFields_def addressFields_def literalTypes_def noObjects_def
  noTypes_def

lemma examplePass_sel [simp]:
  "Files (examplePass fs ty ob) = fs"
  "TypeOf (examplePass fs ty ob) = ty"
  "ObjectOf (examplePass fs ty ob) = ob"
  "NamedTypes (examplePass fs ty ob) = exampleTypes"
  "TypeString (examplePass fs ty ob) = typeName"
  by (simp_all add: examplePass_def)

lemma ex1: "isResponseMessage (examplePass [handlerFile] literalTypes noObjects) (Named 1)"
  by (simp add: isResponseMessage_def example_defs HasSuffix_def)

lemma ex2: "getStructType (examplePass [handlerFile] literalTypes noObjects) (Named 1) = Some userResponseFields"
  by (simp add: getStructType_def example_defs)

lemma ex3: "getMessageFields (examplePass fs ty ob) userResponseFields =
   [Var ''User'' True (Pointer (Named 2)), Var ''LastLogin'' True (Pointer (Named 6))]"
  by (simp add: getMessageFields_def isMessageField_def isOptionalField_def example_defs
      wellKnownPath_def HasPrefix_def scalarWrappers_def)

section \<open>The classifier\<close>

lemma findByName_None: "fieldName \<notin> var_Name ` set fs \<Longrightarrow> findByName fs fieldName = None"
  by (induction fs) auto

lemma findByName_filter_None:
  "distinct (map var_Name fs) \<Longrightarrow> field \<in> set fs \<Longrightarrow> \<not> P field
   \<Longrightarrow> findByName (filter P fs) (var_Name field) = None"
  by (rule findByName_None) (auto simp: distinct_map inj_on_def)

lemma compositeElts_eq:
  "compositeElts mf check elts st =
     map_option (\<lambda>ds. (\<lambda>x. fst st x \<or> x \<in> set (keyNames elts), snd st @ ds))
       (eltsDiagnostics mf check elts)"
proof (induction elts arbitrary: st)
  case Nil
  show ?case by simp
next
  case (Cons elt elts)
  have u: "(\<lambda>x. ((fst st)(a := True)) x \<or> x \<in> set ks) = (\<lambda>x. fst st x \<or> x \<in> set (a # ks))"
    for a ks by auto
  show ?case
    by (cases elt)
      (auto simp: Cons.IH option.map_comp comp_def split: node.splits option.splits
        intro!: map_option_cong ext)
qed

lemma validateFields_eq:
  "validateFields mf check elts report =
     map_option (\<lambda>ds. ds @ uninitializedFields mf (\<lambda>x. x \<in> set (keyNames elts)) report)
       (eltsDiagnostics mf check elts)"
  by (simp add: validateFields_def compositeElts_eq split: option.splits)

lemma eltsDiagnostics_skip:
  "findByName mf (id_Name i) = None
   \<Longrightarrow> eltsDiagnostics mf check (pre @ KeyValueExpr k q (Ident i) val # post)
       = eltsDiagnostics mf check (pre @ post)"
  by (induction pre) (auto split: node.splits option.splits)

lemma keyNames_insert:
  "set (keyNames (pre @ KeyValueExpr k q (Ident i) val # post))
     = insert (id_Name i) (set (keyNames (pre @ post)))"
  by (induction pre) (auto split: node.splits)

lemma uninitializedFields_cong:
  "(\<And>f. f \<in> set mf \<Longrightarrow> ini (var_Name f) = ini' (var_Name f))
   \<Longrightarrow> uninitializedFields mf ini report = uninitializedFields mf ini' report"
  unfolding uninitializedFields_def by (rule arg_cong [where f = "map _"]) (auto intro: filter_cong)

lemma validateFields_skip:
  assumes "var_Name field \<notin> var_Name ` set mf" and "id_Name i = var_Name field"
  shows "validateFields mf check (pre @ KeyValueExpr k q (Ident i) val # post) report
       = validateFields mf check (pre @ post) report"
proof -
  have "findByName mf (id_Name i) = None" using assms by (simp add: findByName_None)
  moreover have "uninitializedFields mf
        (\<lambda>x. x \<in> set (keyNames (pre @ KeyValueExpr k q (Ident i) val # post))) report
      = uninitializedFields mf (\<lambda>x. x \<in> set (keyNames (pre @ post))) report"
  proof (rule uninitializedFields_cong)
    fix f
    assume "f \<in> set mf"
    with assms have "var_Name f \<noteq> id_Name i" by (metis imageI)
    then show "(var_Name f \<in> set (keyNames (pre @ KeyValueExpr k q (Ident i) val # post)))
        = (var_Name f \<in> set (keyNames (pre @ post)))"
      by (simp add: keyNames_insert)
  qed
  ultimately show ?thesis by (simp add: validateFields_eq eltsDiagnostics_skip)
qed

lemma findByName_unique:
  "[f \<leftarrow> fs. var_Name f = name] = [field] \<Longrightarrow> findByName fs name = Some field"
proof (induction fs)
  case Nil
  then show ?case by simp
next
  case (Cons a fs)
  then show ?case by (auto split: if_splits)
qed

lemma collection_not_message: "isCollection (var_Type field) \<Longrightarrow> \<not> isMessageField p field"
  by (cases "var_Type field") (simp_all add: isCollection_def isMessageField_def)

lemma collection_name_not_message:
  assumes "isCollection (var_Type field)"
    and "[f \<leftarrow> structType. var_Name f = var_Name field] = [field]"
  shows "var_Name field \<notin> var_Name ` set (getMessageFields p structType)"
proof
  assume "var_Name field \<in> var_Name ` set (getMessageFields p structType)"
  then obtain f where f: "f \<in> set structType" "isMessageField p f" "var_Name f = var_Name field"
    by (auto simp: getMessageFields_def)
  then have "f \<in> set [f \<leftarrow> structType. var_Name f = var_Name field]" by simp
  with assms(2) have "f = field" by simp
  with f(2) collection_not_message [OF assms(1)] show False by simp
qed

text \<open>
  C7.  A field whose declared type is a slice, an array or a map, of any
  element type, is not a message field, and nothing is ever reported for it.
  \<open>field\<close> is the field of the struct with its name (a struct has one field
  of a name), \<open>i\<close> an identifier of that name.  An assignment to the field
  reports nothing, whatever the right-hand side.  In a composite literal of
  the struct, at the top (\<^verbatim>\<open>checkCompositeLiteral\<close>), nested
  (\<^verbatim>\<open>validateCompositeLiteralMessage\<close>, for every field path \<open>c\<close>) or reached
  through a variable (\<^verbatim>\<open>validateCompositeLiteralMessageAtUse\<close>), the element
  keyed by the field changes nothing: with it, whatever its value, the
  validator reports exactly what it reports for the literal without it; and
  without it, no report of an uninitialized field names the field.
\<close>

theorem collection_field_never_reported:
  assumes "isCollection (var_Type field)"
    and "[f \<leftarrow> structType. var_Name f = var_Name field] = [field]"
    and "getStructType p t = Some structType"
    and "id_Name i = var_Name field"
  shows "\<not> isMessageField p field
     \<and> field \<notin> set (getMessageFields p structType)
     \<and> (\<forall>baseType. TypeOf p (node_id x) = Some baseType \<longrightarrow> deref baseType = t
          \<longrightarrow> checkAssignmentAt n p (SelectorExpr k q x i) rhs = Some [])
     \<and> checkCompositeLiteral n p
          (CompositeLit k q ty (pre @ KeyValueExpr k' q' (Ident i) val # post)) t
        = checkCompositeLiteral n p (CompositeLit k q ty (pre @ post)) t
     \<and> validateCompositeLiteralMessage n p
          (CompositeLit k q ty (pre @ KeyValueExpr k' q' (Ident i) val # post)) t c
        = validateCompositeLiteralMessage n p (CompositeLit k q ty (pre @ post)) t c
     \<and> validateCompositeLiteralMessageAtUse n p
          (CompositeLit k q ty (pre @ KeyValueExpr k' q' (Ident i) val # post)) t c reportPos
        = validateCompositeLiteralMessageAtUse n p (CompositeLit k q ty (pre @ post)) t c reportPos
     \<and> Reportf pos fmt (ctx @ [var_Name field, TypeString p t])
        \<notin> set (uninitializedFields (getMessageFields p structType) initialized
                 (\<lambda>name. Reportf pos fmt (ctx @ [name, TypeString p t])))"
proof -
  note nm = collection_name_not_message [OF assms(1,2), of p]
  have a: "\<not> isMessageField p field" by (rule collection_not_message [OF assms(1)])
  have b: "field \<notin> set (getMessageFields p structType)"
    using a by (simp add: getMessageFields_def)
  have c: "checkAssignmentAt n p (SelectorExpr k q x i) rhs = Some []"
    if "TypeOf p (node_id x) = Some baseType" "deref baseType = t" for baseType
  proof -
    have "getFieldFromType p t (id_Name i) = Some field"
      using assms(2,3,4) by (simp add: getFieldFromType_def findByName_unique)
    with that a show ?thesis by (simp add: checkAssignmentAt_def)
  qed
  have d: "checkCompositeLiteral n p
          (CompositeLit k q ty (pre @ KeyValueExpr k' q' (Ident i) val # post)) t
        = checkCompositeLiteral n p (CompositeLit k q ty (pre @ post)) t"
    using assms(3) by (simp add: checkCompositeLiteral_def validateFields_skip [OF nm assms(4)])
  have e: "validateCompositeLiteralMessage n p
          (CompositeLit k q ty (pre @ KeyValueExpr k' q' (Ident i) val # post)) t c
        = validateCompositeLiteralMessage n p (CompositeLit k q ty (pre @ post)) t c"
    using assms(3)
    by (cases n)
      (simp_all add: validateCompositeLiteralMessage.simps validateFields_skip [OF nm assms(4)])
  have f: "validateCompositeLiteralMessageAtUse n p
          (CompositeLit k q ty (pre @ KeyValueExpr k' q' (Ident i) val # post)) t c reportPos
        = validateCompositeLiteralMessageAtUse n p (CompositeLit k q ty (pre @ post)) t c reportPos"
    using assms(3)
    by (cases n)
      (simp_all add: validateCompositeLiteralMessageAtUse.simps
        validateFields_skip [OF nm assms(4)])
  have g: "Reportf pos fmt (ctx @ [var_Name field, TypeString p t])
        \<notin> set (uninitializedFields (getMessageFields p structType) initialized
                 (\<lambda>name. Reportf pos fmt (ctx @ [name, TypeString p t])))"
    using nm by (auto simp: uninitializedFields_def Reportf_def)
  from a b c d e f g show ?thesis by blast
qed



lemma collection_empty:
  "checkCompositeLiteral 2 collectionPass (CompositeLit 20 20 None []) (Named 1)
     = Some [Reportf 20 NotInitialized [''User'', ''UserResponse''],
             Reportf 20 NotInitialized [''LastLogin'', ''UserResponse'']]"
  by code_simp

theorem collection_field_never_reported_witness:
  "isCollection (var_Type relatedUsers)
   \<and> [f \<leftarrow> userResponseFields. var_Name f = var_Name relatedUsers] = [relatedUsers]
   \<and> getStructType collectionPass (Named 1) = Some userResponseFields
   \<and> checkAssignmentAt 2 collectionPass
        (SelectorExpr 20 20 (Ident (Id 30 30 ''response'')) (Id 21 21 ''RelatedUsers''))
        (Ident (Id 33 33 ''nil'')) = Some []
   \<and> checkCompositeLiteral 2 collectionPass
        (CompositeLit 20 20 None
           [KeyValueExpr 22 21 (Ident (Id 21 21 ''RelatedUsers'')) (Ident (Id 23 23 ''nil''))])
        (Named 1)
      = Some [Reportf 20 NotInitialized [''User'', ''UserResponse''],
              Reportf 20 NotInitialized [''LastLogin'', ''UserResponse'']]"
proof -
  have h: "isCollection (var_Type relatedUsers)"
    "[f \<leftarrow> userResponseFields. var_Name f = var_Name relatedUsers] = [relatedUsers]"
    "getStructType collectionPass (Named 1) = Some userResponseFields"
    "id_Name (Id 21 21 ''RelatedUsers'') = var_Name relatedUsers"
    by (simp_all add: relatedUsers_def isCollection_def userResponseFields_def collectionPass_def
        getStructType_def exampleTypes_def message_def)
  have t: "TypeOf collectionPass (node_id (Ident (Id 30 30 ''response''))) = Some (Pointer (Named 1))"
    by (simp add: collectionPass_def tableOf_def)
  from collection_field_never_reported [OF h, where x = "Ident (Id 30 30 ''response'')"
      and n = 2 and k = 20 and q = 20 and rhs = "Ident (Id 33 33 ''nil'')" and ty = None
      and pre = "[]" and post = "[]" and k' = 22 and q' = 21 and val = "Ident (Id 23 23 ''nil'')"]
    h t collection_empty
  show ?thesis by simp
qed

text \<open>
  C3.  The field \<^verbatim>\<open>Nickname *wrapperspb.StringValue\<close>: the wrapper type lives in
  a package under \<^verbatim>\<open>google.golang.org/protobuf/types/known\<close>, the well-known
  test comes before the wrapper table, and \<^verbatim>\<open>isMessageField\<close> answers true.
\<close>

theorem wrapper_in_known_package_is_message_field:
  "isMessageField (examplePass [] noTypes noObjects) (Var ''Nickname'' True (Pointer (Named 7)))
   \<and> scalarWrappers ''StringValue''"
  by (simp add: isMessageField_def examplePass_def exampleTypes_def message_def protoMessage_def
      wellKnownPath_def HasPrefix_def scalarWrappers_def)

section \<open>The nil test\<close>

text \<open>
  C4.  \<^verbatim>\<open>loadUser(nil)\<close>, a call of a function with the one argument \<^verbatim>\<open>nil\<close>:
  \<^verbatim>\<open>isNilValue\<close> answers true, for it takes every call with the single
  argument \<^verbatim>\<open>nil\<close> for a conversion \<^verbatim>\<open>(*Type)(nil)\<close>.
\<close>

theorem call_with_nil_argument_is_nil:
  "isNilValue (Suc n) p (CallExpr k q (Ident (Id k' q' ''loadUser'')) [Ident (Id k'' q'' ''nil'')])
     = Some True"
  by (simp add: isNilValue.simps isNilIdent_def isTypedNil_def)

lemma isNilValue_SelectorExpr: "isNilValue (Suc n) p (SelectorExpr k q x sel) = Some False"
  by (simp add: isNilValue_other isTypedNil_def)

lemma isNilValue_CallExpr:
  "isNilValue (Suc n) p (CallExpr k q f args) =
     Some (case args of [a] \<Rightarrow> isNilIdent a | _ \<Rightarrow> False)"
  by (simp add: isNilValue_other isTypedNil_def)

section \<open>Composite literals\<close>

lemma compositeElts_positional:
  "\<forall>elt\<in>set elts. \<not> isKeyValue elt \<Longrightarrow> compositeElts mf check elts st = Some st"
  by (induction elts) (auto simp: isKeyValue_def split: node.splits)

text \<open>
  C10.  A composite literal of a response message written with positional
  elements only: no element counts as initializing a field.  Every message
  field of the type is reported as not initialized, at the literal, and
  nothing else is reported, whatever the elements are (a \<^verbatim>\<open>nil\<close> among them
  is not reported as a nil assignment).
\<close>

theorem positional_elements_ignored:
  assumes "\<forall>elt\<in>set (Elts lit). \<not> isKeyValue elt"
    and "isResponseMessage p litType"
    and "getStructType p litType = Some structType"
  shows "checkCompositeLiteral n p lit litType =
     Some (map (\<lambda>field. Reportf (node_Pos lit) NotInitialized [var_Name field, TypeString p litType])
            (getMessageFields p structType))"
  using assms
  by (simp add: checkCompositeLiteral_def validateFields_def compositeElts_positional
      uninitializedFields_def)

theorem positional_elements_ignored_witness:
  "list_all (\<lambda>elt. \<not> isKeyValue elt) (Elts positionalLiteral)
   \<and> isResponseMessage (examplePass [handlerFile] literalTypes noObjects) (Named 1)
   \<and> getStructType (examplePass [handlerFile] literalTypes noObjects) (Named 1)
       = Some userResponseFields
   \<and> checkCompositeLiteral 1 (examplePass [handlerFile] literalTypes noObjects)
       positionalLiteral (Named 1)
     = Some [Reportf 10 NotInitialized [''User'', ''UserResponse''],
             Reportf 10 NotInitialized [''LastLogin'', ''UserResponse'']]"
proof -
  have h: "\<forall>elt\<in>set (Elts positionalLiteral). \<not> isKeyValue elt"
    by (simp add: positionalLiteral_def isKeyValue_def)
  from h ex1 ex2 positional_elements_ignored [OF h ex1 ex2, of 1]
  show ?thesis by (simp add: ex3 positionalLiteral_def exampleTypes_def message_def list_all_iff)
qed




















section \<open>The run\<close>

text \<open>
  C9.  When a file of the package has a name ending in \<^verbatim>\<open>.pb.go\<close>, \<^verbatim>\<open>run\<close>
  returns before it looks at any node: nothing is reported for any file of
  the package.
\<close>

theorem run_skips_generated:
  "file \<in> set (Files p) \<Longrightarrow> HasSuffix (file_Name file) ''.pb.go'' \<Longrightarrow> run n p = Some []"
  by (auto simp: run_def list_ex_iff)

theorem run_skips_generated_witness:
  "generatedFile \<in> set [handlerFile, generatedFile]
   \<and> HasSuffix (file_Name generatedFile) ''.pb.go''
   \<and> run 1 (examplePass [handlerFile, generatedFile] literalTypes noObjects) = Some []
   \<and> run 1 (examplePass [handlerFile] literalTypes noObjects)
     = Some [Reportf 10 NotInitialized [''User'', ''UserResponse''],
             Reportf 10 NotInitialized [''LastLogin'', ''UserResponse'']]"
proof -
  have h: "generatedFile \<in> set (Files (examplePass [handlerFile, generatedFile] literalTypes noObjects))"
    "HasSuffix (file_Name generatedFile) ''.pb.go''"
    by (simp_all add: examplePass_def generatedFile_def HasSuffix_def)
  have r: "run 1 (examplePass [handlerFile] literalTypes noObjects)
     = Some [Reportf 10 NotInitialized [''User'', ''UserResponse''],
             Reportf 10 NotInitialized [''LastLogin'', ''UserResponse'']]"
    by code_simp
  from h r run_skips_generated [OF h, of 1] show ?thesis by simp
qed

lemma returnResults_grows:
  "returnResults n p rs st = Some st' \<Longrightarrow> fst st x \<Longrightarrow> fst st' x"
proof (induction rs arbitrary: st)
  case Nil
  then show ?case by simp
next
  case (Cons r rs)
  show ?case
    using Cons.prems Cons.IH
    by (auto split: node.splits if_splits option.splits)
qed

lemma returnResults_marks:
  "returnResults n p rs st = Some st' \<Longrightarrow> CompositeLit k q ty elts \<in> set rs \<Longrightarrow> fst st' k"
proof (induction rs arbitrary: st)
  case Nil
  then show ?case by simp
next
  case (Cons r rs)
  show ?case
  proof (cases "r = CompositeLit k q ty elts")
    case True
    with Cons.prems(1) show ?thesis
      by (auto split: if_splits option.splits dest: returnResults_grows [where x = k])
  next
    case False
    with Cons.prems have "CompositeLit k q ty elts \<in> set rs" by simp
    with Cons.prems(1) Cons.IH show ?thesis
      by (auto split: node.splits if_splits option.splits)
  qed
qed

lemma visit_grows: "visit n p x st = Some st' \<Longrightarrow> fst st k \<Longrightarrow> fst st' k"
  unfolding visit_def
  by (auto split: node.splits if_splits option.splits dest: returnResults_grows)

lemma visitAll_grows: "visitAll (visit n p) xs st = Some st' \<Longrightarrow> fst st k \<Longrightarrow> fst st' k"
  by (induction xs arbitrary: st) (auto split: option.splits dest: visit_grows)

lemma visit_marks:
  assumes "visit n p entry st = Some st'"
    and "entry = CompositeLit k q ty elts
         \<or> (\<exists>k' q' results. entry = ReturnStmt k' q' results \<and> CompositeLit k q ty elts \<in> set results)"
  shows "fst st' k"
  using assms unfolding visit_def
  by (auto split: if_splits option.splits dest: returnResults_marks)

lemma visit_analyzed:
  "fst st k \<Longrightarrow> visit n p (CompositeLit k q ty elts) st = Some st"
  "fst st k \<Longrightarrow> visit n p (ReturnStmt k' q' [CompositeLit k q ty elts]) st = Some st"
  by (simp_all add: visit_def)

lemma visit_first:
  assumes "\<not> fst st k" and "TypeOf p k = Some litType" and "isResponseMessage p litType"
  shows "visit n p (CompositeLit k q ty elts) st
       = map_option (\<lambda>ds. ((fst st)(k := True), snd st @ ds))
           (checkCompositeLiteral n p (CompositeLit k q ty elts) litType)"
    and "visit n p (ReturnStmt k' q' [CompositeLit k q ty elts]) st
       = map_option (\<lambda>ds. ((fst st)(k := True), snd st @ ds))
           (checkCompositeLiteral n p (CompositeLit k q ty elts) litType)"
  using assms by (simp_all add: visit_def split: option.splits)

text \<open>
  C8.  Let the composite literal \<open>c\<close> have been reached once, as a node of
  its own or as a result of a return statement, and let any nodes have been
  visited since.  Then reaching \<open>c\<close> again, either way, changes neither the
  diagnostics nor the visited set.  And the first time, when \<open>c\<close> was not
  yet in the visited set and is a literal of a response message, it was
  validated once: the state after is the state before with \<open>c\<close> marked and
  the diagnostics of one \<^verbatim>\<open>checkCompositeLiteral\<close> appended.
\<close>

theorem composite_validated_once:
  assumes "c = CompositeLit k q ty elts"
    and "visit n p entry st = Some st1"
    and "entry = c \<or> (\<exists>k' q' results. entry = ReturnStmt k' q' results \<and> c \<in> set results)"
    and "visitAll (visit n p) between st1 = Some st2"
  shows "visit n p c st2 = Some st2
     \<and> visit n p (ReturnStmt k2 q2 [c]) st2 = Some st2
     \<and> (\<not> fst st k \<longrightarrow> TypeOf p k = Some litType \<longrightarrow> isResponseMessage p litType
          \<longrightarrow> entry = c \<or> entry = ReturnStmt k1 q1 [c]
          \<longrightarrow> (\<exists>ds. checkCompositeLiteral n p c litType = Some ds
                    \<and> st1 = ((fst st)(k := True), snd st @ ds)))"
proof -
  have "fst st1 k" using assms(2,3) unfolding assms(1) by (rule visit_marks)
  with assms(4) have "fst st2 k" by (rule visitAll_grows)
  then have a: "visit n p c st2 = Some st2" "visit n p (ReturnStmt k2 q2 [c]) st2 = Some st2"
    unfolding assms(1) by (rule visit_analyzed)+
  have b: "\<exists>ds. checkCompositeLiteral n p c litType = Some ds
                    \<and> st1 = ((fst st)(k := True), snd st @ ds)"
    if "\<not> fst st k" "TypeOf p k = Some litType" "isResponseMessage p litType"
      "entry = c \<or> entry = ReturnStmt k1 q1 [c]"
    using that(4) assms(2) visit_first [OF that(1,2,3), where n = n and q = q and ty = ty and elts = elts]
    unfolding assms(1) by auto
  from a b show ?thesis by blast
qed

lemma return_run:
  "run 1 returnPass
     = Some [Reportf 501 NotInitialized [''User'', ''UserResponse''],
             Reportf 501 NotInitialized [''LastLogin'', ''UserResponse'']]"
  by code_simp

lemma return_visit:
  "visit 1 returnPass returnStmt (\<lambda>_. False, [])
     = Some ((\<lambda>_. False)(501 := True),
             [Reportf 501 NotInitialized [''User'', ''UserResponse''],
              Reportf 501 NotInitialized [''LastLogin'', ''UserResponse'']])"
  by (simp add: returnStmt_def visit_def returnPass_def tableOf_def typeExpr_def
      checkCompositeLiteral_def validateFields_def uninitializedFields_def ex1 ex2 ex3
      isResponseMessage_def getStructType_def exampleTypes_def message_def protoMessage_def
      HasSuffix_def)

theorem composite_validated_once_witness:
  "visit 1 returnPass returnStmt (\<lambda>_. False, [])
     = Some ((\<lambda>_. False)(501 := True),
             [Reportf 501 NotInitialized [''User'', ''UserResponse''],
              Reportf 501 NotInitialized [''LastLogin'', ''UserResponse'']])
   \<and> visit 1 returnPass (CompositeLit 501 501 (typeExpr 502 501) [])
        ((\<lambda>_. False)(501 := True),
         [Reportf 501 NotInitialized [''User'', ''UserResponse''],
          Reportf 501 NotInitialized [''LastLogin'', ''UserResponse'']])
     = Some ((\<lambda>_. False)(501 := True),
             [Reportf 501 NotInitialized [''User'', ''UserResponse''],
              Reportf 501 NotInitialized [''LastLogin'', ''UserResponse'']])
   \<and> run 1 returnPass
     = Some [Reportf 501 NotInitialized [''User'', ''UserResponse''],
             Reportf 501 NotInitialized [''LastLogin'', ''UserResponse'']]"
proof -
  have v: "visitAll (visit 1 returnPass) []
      ((\<lambda>_. False)(501 := True),
       [Reportf 501 NotInitialized [''User'', ''UserResponse''],
        Reportf 501 NotInitialized [''LastLogin'', ''UserResponse'']])
     = Some ((\<lambda>_. False)(501 := True),
       [Reportf 501 NotInitialized [''User'', ''UserResponse''],
        Reportf 501 NotInitialized [''LastLogin'', ''UserResponse'']])"
    by simp
  have e: "returnStmt = CompositeLit 501 501 (typeExpr 502 501) []
     \<or> (\<exists>k' q' results. returnStmt = ReturnStmt k' q' results
          \<and> CompositeLit 501 501 (typeExpr 502 501) [] \<in> set results)"
    by (simp add: returnStmt_def)
  from composite_validated_once [OF refl return_visit e v] return_visit return_run
  show ?thesis by blast
qed

section \<open>The test data evaluated\<close>

lemma implicit_run2:
  "run 2 implicitNilPass =
     Some [Reportf 113 NotInitialized [''User'', ''UserResponse''],
           Reportf 113 NotInitialized [''LastLogin'', ''UserResponse''],
           Reportf 124 NilAssignment [''User'', ''UserResponse'']]"
  by code_simp

text \<open>
  C5.  \<^verbatim>\<open>implicitNilAssignment\<close> of the test data, with any fuel from 2 on: the
  assignment \<^verbatim>\<open>response.User = user\<close> of the variable declared without an
  initializer is reported once, at the \<^verbatim>\<open>user\<close> of the right-hand side (node
  124), with the format and text of an explicit nil assignment:
  \<^verbatim>\<open>isNilValue\<close> is already true of the variable, so that the branch of
  \<^verbatim>\<open>validateVariableMessage\<close> that reports \<^verbatim>\<open>variable 'user' used for field
  'User' is nil\<close> is not reached.  (The two other diagnostics are those of the
  empty literal \<^verbatim>\<open>&examplev1.UserResponse{}\<close>.)
\<close>

theorem implicit_nil_reported_as_nil_assignment:
  "run (2 + n) implicitNilPass =
     Some [Reportf 113 NotInitialized [''User'', ''UserResponse''],
           Reportf 113 NotInitialized [''LastLogin'', ''UserResponse''],
           Reportf 124 NilAssignment [''User'', ''UserResponse'']]
   \<and> Message (Reportf 124 NilAssignment [''User'', ''UserResponse''])
     = ''nil assignment to non-optional message field '' @ quoted ''User''
       @ '' in protobuf message '' @ quoted ''UserResponse''"
  using run_mono [OF implicit_run2, of "2 + n"] by (simp add: Message_def Reportf_def)

lemma deeply_run4:
  "run 4 deeplyNestedPass =
     Some [Reportf 247 UseUninitialized [''User'', ''CreatedAt'', ''User''],
           Reportf 247 UseUninitialized [''User'', ''ContactInfo'', ''User''],
           Reportf 250 NilAssignment [''LastLogin'', ''UserResponse'']]"
  by code_simp

lemma deeply_var_run7:
  "run 7 deeplyNestedVarPass
     = Some [Reportf 437 UseNil [''User.Address'', ''Location'', ''Address'']]"
  by code_simp

text \<open>
  C2.  \<^verbatim>\<open>deeplyNestedNil\<close> of the test data, with any fuel from 4 on: nothing is
  reported for \<^verbatim>\<open>Location: nil\<close>.  At the use of \<^verbatim>\<open>user\<close> (node 247) the walk
  reaches the literal of \<^verbatim>\<open>user\<close>, and reports its missing fields there; for
  \<^verbatim>\<open>Address: addr\<close> it calls \<^verbatim>\<open>validateVariableMessageAtPos\<close>, which looks for
  a \<^verbatim>\<open>var\<close> specification only and so does not find \<^verbatim>\<open>addr := ...\<close>.
  (\<^verbatim>\<open>validateVariableMessage\<close>, one level up, looks for both forms.)  With
  \<^verbatim>\<open>var\<close> declarations the nil is reported, once, at the use (lemma
  \<open>deeply_var_run7\<close>).
\<close>

theorem deeply_nested_nil_not_reported:
  "run (4 + n) deeplyNestedPass =
     Some [Reportf 247 UseUninitialized [''User'', ''CreatedAt'', ''User''],
           Reportf 247 UseUninitialized [''User'', ''ContactInfo'', ''User''],
           Reportf 250 NilAssignment [''LastLogin'', ''UserResponse'']]"
  using run_mono [OF deeply_run4, of "4 + n"] by simp

section \<open>Initializers that refer to themselves\<close>







end
